theory Spec2Isabelle
  imports Complex_Main
begin

section \<open>Errors and library helpers\<close>

text \<open>
  Every exception the modelled code can raise is a value of \<open>error\<close>; a function that
  can raise returns \<open>error + 'a\<close> with \<open>Inl\<close> for the exception. Failures of the
  environment (an unwritable checkpoint directory, CUDA) are outside the model.
\<close>

datatype error =
    StopIteration
  | ZeroDivisionError
  | KeyError
  | IndexError
  | ValueError
  | RuntimeError
  | FileNotFoundError

text \<open>Python's \<open>str\<close> on an integer: its decimal digits, after a minus sign when negative.\<close>

definition digit_char :: "nat \<Rightarrow> char" where
  "digit_char d = ''0123456789'' ! d"

fun str_nat :: "nat \<Rightarrow> string" where
  "str_nat n = (if n < 10 then [digit_char n] else str_nat (n div 10) @ [digit_char (n mod 10)])"

declare str_nat.simps [simp del]

definition str :: "int \<Rightarrow> string" where
  "str i = (if i < 0 then CHR ''-'' # str_nat (nat (- i)) else str_nat (nat i))"

text \<open>
  \<open>os.path.join\<close> on two components (POSIX): an absolute second component replaces the
  first; otherwise the two are joined by one slash unless the first is empty or already
  ends in one.
\<close>

definition path_join :: "string \<Rightarrow> string \<Rightarrow> string" where
  "path_join a b =
     (if b \<noteq> [] \<and> hd b = CHR ''/'' then b
      else if a = [] \<or> last a = CHR ''/'' then a @ b
      else a @ ''/'' @ b)"

text \<open>
  \<open>torch.FloatTensor(xs).long()\<close> sends each integer through a 32-bit float and back.
  The integer is read as a C double, which keeps 53 significant bits, and is then stored
  as a float, which keeps 24; each step rounds to nearest with ties to even. An integer
  of bit length \<open>b > p\<close> loses its low \<open>b - p\<close> bits when rounded to \<open>p\<close> significant bits.
  Below \<open>2 ^ 53\<close> the first step changes nothing, and the result is the float nearest to
  the integer. \<open>.long()\<close> turns the float, a whole number, into a 64-bit integer: it is
  returned as it is when it lies in \<open>[-2 ^ 63, 2 ^ 63)\<close>, and the conversion of a float
  outside this range yields \<open>-2 ^ 63\<close> (as on x86 processors).
\<close>

fun bit_length :: "nat \<Rightarrow> nat" where
  "bit_length n = (if n = 0 then 0 else Suc (bit_length (n div 2)))"

declare bit_length.simps [simp del]

definition round_bits :: "nat \<Rightarrow> nat \<Rightarrow> nat" where
  "round_bits p m =
     (let k = bit_length m - p;
          q = m div 2 ^ k;
          r = m mod 2 ^ k;
          q' = (if 2 ^ k < 2 * r \<or> (2 * r = 2 ^ k \<and> odd q) then q + 1 else q)
      in q' * 2 ^ k)"

definition float_long :: "int \<Rightarrow> int" where
  "float_long n =
     (let v = sgn n * int (round_bits 24 (round_bits 53 (nat \<bar>n\<bar>)))
      in if - (2 ^ 63) \<le> v \<and> v < 2 ^ 63 then v else - (2 ^ 63))"

text \<open>
  \<open>random.randint(a, b)\<close> returns \<open>a + k\<close> for some \<open>k\<close> in \<open>[0, b - a]\<close>. The generator's
  state is not modelled: the draw is the argument \<open>entropy\<close> reduced into that range, so
  every outcome of the source is the value at some entropy and no other value arises.
  The source only calls it with \<open>a \<le> b\<close>; with \<open>a > b\<close> Python raises.
\<close>

definition randint :: "nat \<Rightarrow> int \<Rightarrow> int \<Rightarrow> error + int" where
  "randint entropy a b =
     (if b < a then Inl ValueError else Inr (a + int entropy mod (b - a + 1)))"

section \<open>Feature tensors\<close>

text \<open>
  A mel-spectrogram is a tensor of shape \<open>(len, bins)\<close>: a list of frames with the size
  of the trailing dimension kept beside it, as a tensor keeps its shape even when it has
  no frame.
\<close>

record spectrogram =
  bins :: nat
  frames :: "real list list"

definition len :: "spectrogram \<Rightarrow> int" where
  "len m = int (length (frames m))"

text \<open>
  Python's slice \<open>xs[i:j]\<close>: a negative bound counts from the end, and both bounds are
  clamped into \<open>[0, len]\<close>.
\<close>

definition slice_bound :: "int \<Rightarrow> int \<Rightarrow> nat" where
  "slice_bound n i = nat (if i < 0 then max 0 (n + i) else min n i)"

definition slice :: "'a list \<Rightarrow> int \<Rightarrow> int \<Rightarrow> 'a list" where
  "slice xs i j =
     (let n = int (length xs); a = slice_bound n i; b = slice_bound n j
      in take (b - a) (drop a xs))"

section \<open>Training dataset\<close>

text \<open>
  \<open>myDataset\<close> after \<open>__init__\<close>: \<open>data\<close> holds one \<open>[feature_path, speaker id]\<close> pair per
  utterance. The feature files on disk are the map \<open>feature_store\<close> from path to tensor;
  \<open>torch.load\<close> of a missing path raises.
\<close>

record myDataset =
  data_dir :: string
  segment_len :: int
  speaker_num :: nat
  data :: "(string \<times> int) list"

type_synonym feature_store = "string \<rightharpoonup> spectrogram"

definition torch_load :: "feature_store \<Rightarrow> string \<Rightarrow> error + spectrogram" where
  "torch_load fs path = (case fs path of None \<Rightarrow> Inl FileNotFoundError | Some m \<Rightarrow> Inr m)"

text \<open>
  Indexing a Python list: positions \<open>0 .. n - 1\<close> from the front, \<open>-1 .. -n\<close> from the
  back, and an exception for any other index.
\<close>

definition getitem_list :: "'a list \<Rightarrow> int \<Rightarrow> error + 'a" where
  "getitem_list xs i =
     (if 0 \<le> i \<and> i < int (length xs) then Inr (xs ! nat i)
      else if i < 0 \<and> - int (length xs) \<le> i then Inr (xs ! nat (int (length xs) + i))
      else Inl IndexError)"

text \<open>
  The segmenting branch of \<open>myDataset.__getitem__\<close>: a tensor longer than
  \<open>segment_len\<close> is cut to the slice \<open>[start, start + segment_len)\<close> at a random
  \<open>start\<close>; any other tensor is kept whole. (\<open>torch.FloatTensor\<close> of a float tensor
  keeps its values.)
\<close>

definition getitem_segment :: "nat \<Rightarrow> int \<Rightarrow> spectrogram \<Rightarrow> error + spectrogram" where
  "getitem_segment entropy seg_len mel =
     (if len mel > seg_len then
        (case randint entropy 0 (len mel - seg_len) of
           Inl e \<Rightarrow> Inl e
         | Inr start \<Rightarrow> Inr (mel\<lparr>frames := slice (frames mel) start (start + seg_len)\<rparr>))
      else Inr mel)"

definition getitem :: "myDataset \<Rightarrow> feature_store \<Rightarrow> nat \<Rightarrow> int \<Rightarrow> error + (spectrogram \<times> int)" where
  "getitem ds fs entropy index =
     (case getitem_list (data ds) index of
        Inl e \<Rightarrow> Inl e
      | Inr (feat_path, speaker) \<Rightarrow>
          (case torch_load fs (path_join (data_dir ds) feat_path) of
             Inl e \<Rightarrow> Inl e
           | Inr mel \<Rightarrow>
               (case getitem_segment entropy (segment_len ds) mel of
                  Inl e \<Rightarrow> Inl e
                | Inr seg \<Rightarrow> Inr (seg, float_long speaker))))"

section \<open>Batch assembly\<close>

text \<open>
  \<open>pad_sequence(sequences, batch_first=True, padding_value)\<close> allocates a tensor of
  shape \<open>(B, max_len, trailing)\<close> filled with the padding value, where \<open>trailing\<close> is
  the trailing shape of the first sequence, and copies each sequence into the front of
  its row. The copy broadcasts: a sequence with a single mel bin is accepted for any
  \<open>trailing\<close> and the value of each of its frames is repeated along that dimension. The
  copy raises when a sequence has any other trailing shape; an empty list of sequences
  raises as well.
\<close>

definition broadcast_to :: "nat \<Rightarrow> spectrogram \<Rightarrow> real list list" where
  "broadcast_to trailing s =
     (if bins s = trailing then frames s
      else map (\<lambda>f. concat (map (replicate trailing) f)) (frames s))"

definition pad_sequence :: "spectrogram list \<Rightarrow> real \<Rightarrow> error + real list list list" where
  "pad_sequence sequences padding_value =
     (case sequences of
        [] \<Rightarrow> Inl RuntimeError
      | s0 # _ \<Rightarrow>
          (let max_len = fold max (map (\<lambda>s. length (frames s)) sequences) 0;
               trailing = bins s0
           in if list_all (\<lambda>s. bins s = trailing \<or> bins s = 1) sequences
              then Inr (map (\<lambda>s. broadcast_to trailing s
                               @ replicate (max_len - length (frames s))
                                   (replicate trailing padding_value)) sequences)
              else Inl RuntimeError))"

text \<open>
  \<open>collate_batch\<close>: \<open>zip(*batch)\<close> unpacks into exactly two tuples, which fails on an
  empty batch.
\<close>

definition collate_batch :: "(spectrogram \<times> int) list \<Rightarrow> error + (real list list list \<times> int list)" where
  "collate_batch batch =
     (if batch = [] then Inl ValueError
      else
        let mel = map fst batch; speaker = map snd batch
        in (case pad_sequence mel (- 20) of
              Inl e \<Rightarrow> Inl e
            | Inr padded \<Rightarrow> Inr (padded, map float_long speaker)))"

section \<open>Data loaders\<close>

text \<open>
  The batch sampler of a \<open>DataLoader\<close>: consecutive groups of \<open>n\<close> indices in sampler
  order; a final shorter group is dropped when \<open>drop_last\<close> is set and kept otherwise.
  (The constructor rejects \<open>batch_size = 0\<close>; no batch is produced for it here.)
\<close>

function batches_of :: "nat \<Rightarrow> bool \<Rightarrow> 'a list \<Rightarrow> 'a list list" where
  "batches_of n dl xs =
     (if n = 0 \<or> xs = [] then []
      else if length xs < n then (if dl then [] else [xs])
      else take n xs # batches_of n dl (drop n xs))"
  by pat_completeness auto
termination
  by (relation "measure (\<lambda>(n, dl, xs). length xs)") auto

declare batches_of.simps [simp del]

text \<open>
  A random permutation, as the random sampler draws one per iterator: the next element
  is picked among those left, at the position given by the next number of the entropy
  list. Every list of numbers gives a permutation and every permutation is reached.
\<close>

fun pick :: "nat \<Rightarrow> nat list \<Rightarrow> 'a list \<Rightarrow> 'a list" where
  "pick 0 es xs = []"
| "pick (Suc n) es xs =
     (if xs = [] then []
      else
        let i = (case es of [] \<Rightarrow> 0 | e # _ \<Rightarrow> e) mod length xs
        in xs ! i # pick n (tl es) (take i xs @ drop (Suc i) xs))"

definition shuffle_list :: "nat list \<Rightarrow> 'a list \<Rightarrow> 'a list" where
  "shuffle_list es xs = pick (length xs) es xs"

text \<open>
  A loader over a \<open>Subset\<close> of a \<open>myDataset\<close> with \<open>collate_fn = collate_batch\<close>, as
  \<open>get_dataloader\<close> builds two of (the training one with \<open>shuffle\<close> and \<open>drop_last\<close>,
  the validation one with \<open>drop_last\<close> only). The disk and the random draws are kept in
  the loader: \<open>shuffle_entropy k\<close> drives the permutation of its \<open>k\<close>-th iterator and
  \<open>crop_entropy k i\<close> the segment drawn when that iterator fetches item \<open>i\<close>.
\<close>

record DataLoader =
  dataset :: myDataset
  indices :: "nat list"
  features :: feature_store
  batch_size :: nat
  shuffle :: bool
  drop_last :: bool
  shuffle_entropy :: "nat \<Rightarrow> nat list"
  crop_entropy :: "nat \<Rightarrow> nat \<Rightarrow> nat"

record iterator =
  pass :: nat
  pending :: "nat list list"

type_synonym batch = "real list list list \<times> int list"

text \<open>\<open>len(dataloader)\<close>: the number of batches of one pass.\<close>

definition len_loader :: "DataLoader \<Rightarrow> nat" where
  "len_loader dl =
     (let n = length (indices dl); b = batch_size dl
      in if drop_last dl then n div b else (n + b - 1) div b)"

definition iter :: "DataLoader \<Rightarrow> nat \<Rightarrow> iterator" where
  "iter dl k =
     (let order = (if shuffle dl
                   then shuffle_list (shuffle_entropy dl k) [0..<length (indices dl)]
                   else [0..<length (indices dl)])
      in \<lparr>pass = k, pending = batches_of (batch_size dl) (drop_last dl) order\<rparr>)"

fun fetch :: "DataLoader \<Rightarrow> nat \<Rightarrow> nat list \<Rightarrow> error + (spectrogram \<times> int) list" where
  "fetch dl k [] = Inr []"
| "fetch dl k (i # rest) =
     (case getitem_list (indices dl) (int i) of
        Inl e \<Rightarrow> Inl e
      | Inr j \<Rightarrow>
          (case getitem (dataset dl) (features dl) (crop_entropy dl k i) (int j) of
             Inl e \<Rightarrow> Inl e
           | Inr x \<Rightarrow>
               (case fetch dl k rest of
                  Inl e \<Rightarrow> Inl e
                | Inr xs \<Rightarrow> Inr (x # xs))))"

definition load_batch :: "DataLoader \<Rightarrow> nat \<Rightarrow> nat list \<Rightarrow> error + batch" where
  "load_batch dl k idxs =
     (case fetch dl k idxs of
        Inl e \<Rightarrow> Inl e
      | Inr items \<Rightarrow> collate_batch items)"

text \<open>\<open>next(iterator)\<close>: the next batch, or \<open>StopIteration\<close> when the pass is over.\<close>

definition next_batch :: "DataLoader \<Rightarrow> iterator \<Rightarrow> error + (batch \<times> iterator)" where
  "next_batch dl it =
     (case pending it of
        [] \<Rightarrow> Inl StopIteration
      | idxs # rest \<Rightarrow>
          (case load_batch dl (pass it) idxs of
             Inl e \<Rightarrow> Inl e
           | Inr b \<Rightarrow> Inr (b, it\<lparr>pending := rest\<rparr>)))"

section \<open>Learning-rate schedule\<close>

text \<open>
  \<open>get_cosine_schedule_with_warmup\<close> wraps the closure \<open>lr_lambda\<close> in a \<open>LambdaLR\<close>
  scheduler. The closure reads \<open>num_warmup_steps\<close>, \<open>num_training_steps\<close> and
  \<open>num_cycles\<close> from the enclosing call; here they are its leading arguments. Python
  integers are \<open>int\<close>; Python floats are idealised as \<open>real\<close>, so \<open>float(n)\<close> is
  \<open>real_of_int n\<close> and \<open>math.cos\<close>, \<open>math.pi\<close> are \<open>cos\<close> and \<open>pi\<close>.
\<close>

definition lr_lambda :: "int \<Rightarrow> int \<Rightarrow> real \<Rightarrow> int \<Rightarrow> real" where
  "lr_lambda num_warmup_steps num_training_steps num_cycles current_step =
     (if current_step < num_warmup_steps
      then real_of_int current_step / real_of_int (max 1 num_warmup_steps)
      else
        let progress = real_of_int (current_step - num_warmup_steps)
                       / real_of_int (max 1 (num_training_steps - num_warmup_steps))
        in max 0 (0.5 * (1 + cos (pi * num_cycles * 2 * progress))))"

text \<open>
  \<open>LambdaLR\<close> sets the optimizer's rate at scheduler epoch \<open>e\<close> to the base rate times
  \<open>lr_lambda e\<close>. The default \<open>num_cycles = 0.5\<close> is the one \<open>main\<close> uses.
\<close>

definition get_cosine_schedule_with_warmup :: "real \<Rightarrow> int \<Rightarrow> int \<Rightarrow> int \<Rightarrow> real" where
  "get_cosine_schedule_with_warmup base_lr num_warmup_steps num_training_steps epoch =
     base_lr * lr_lambda num_warmup_steps num_training_steps 0.5 epoch"

section \<open>The module in memory\<close>

text \<open>
  The tensors of the module live in the process memory, a \<open>heap\<close> from addresses to
  tensor values. The module names the address of each of its parameters and buffers.
  \<open>state_dict()\<close> returns an ordered dictionary from those names to the same tensors: it
  shares their storage, it does not copy them. \<open>torch.save\<close> writes the contents the
  referenced tensors have when it is called. The tensor values themselves are left
  abstract (\<open>'v\<close>). A new \<open>nn.Module\<close> is in training mode.
\<close>

type_synonym addr = nat
type_synonym state_dict = "(string \<times> addr) list"

record 'v module =
  tensors :: state_dict
  training :: bool
  heap :: "addr \<Rightarrow> 'v"

definition state_dict :: "'v module \<Rightarrow> state_dict" where
  "state_dict m = tensors m"

definition eval :: "'v module \<Rightarrow> 'v module" where
  "eval m = m\<lparr>training := False\<rparr>"

definition train :: "'v module \<Rightarrow> 'v module" where
  "train m = m\<lparr>training := True\<rparr>"

definition torch_save :: "(addr \<Rightarrow> 'v) \<Rightarrow> state_dict \<Rightarrow> (string \<times> 'v) list" where
  "torch_save h sd = map (\<lambda>(name, a). (name, h a)) sd"

text \<open>
  The numerical kernels are the external collaborator and are taken as given functions:
  \<^item> \<open>logits nm m mels\<close>: the output of \<open>model(mels)\<close>, one row of scores per batch item;
  \<^item> \<open>track_stats nm m mels\<close>: the memory after a forward pass in training mode, which
    updates the running statistics of the normalisation layers; in evaluation mode a
    forward pass writes nothing;
  \<^item> \<open>criterion nm outs labels\<close>: the cross-entropy loss;
  \<^item> \<open>optimizer_step nm step lr m batch\<close>: the memory after \<open>loss.backward()\<close>,
    \<open>optimizer.step()\<close> at learning rate \<open>lr\<close> and \<open>optimizer.zero_grad()\<close> in iteration
    \<open>step\<close>; the optimizer updates the tensors in place.
\<close>

record 'v numerics =
  logits :: "'v module \<Rightarrow> real list list list \<Rightarrow> real list list"
  track_stats :: "'v module \<Rightarrow> real list list list \<Rightarrow> (addr \<Rightarrow> 'v)"
  criterion :: "real list list \<Rightarrow> int list \<Rightarrow> real"
  optimizer_step :: "nat \<Rightarrow> real \<Rightarrow> 'v module \<Rightarrow> batch \<Rightarrow> (addr \<Rightarrow> 'v)"

definition call_model :: "'v numerics \<Rightarrow> 'v module \<Rightarrow> real list list list
    \<Rightarrow> real list list \<times> 'v module" where
  "call_model nm m mels =
     (logits nm m mels, if training m then m\<lparr>heap := track_stats nm m mels\<rparr> else m)"

text \<open>
  \<open>argmax\<close> over the scores of one item: the index of the first maximum. An empty row
  has none.
\<close>

fun argmax_from :: "nat \<Rightarrow> real \<Rightarrow> nat \<Rightarrow> real list \<Rightarrow> nat" where
  "argmax_from best_i best_v i [] = best_i"
| "argmax_from best_i best_v i (x # xs) =
     (if best_v < x then argmax_from i x (Suc i) xs
      else argmax_from best_i best_v (Suc i) xs)"

definition argmax :: "real list \<Rightarrow> error + nat" where
  "argmax row = (case row of [] \<Rightarrow> Inl IndexError | x # xs \<Rightarrow> Inr (argmax_from 0 x 1 xs))"

fun argmax_rows :: "real list list \<Rightarrow> error + nat list" where
  "argmax_rows [] = Inr []"
| "argmax_rows (row # rows) =
     (case argmax row of
        Inl e \<Rightarrow> Inl e
      | Inr i \<Rightarrow> (case argmax_rows rows of Inl e \<Rightarrow> Inl e | Inr is \<Rightarrow> Inr (i # is)))"

text \<open>\<open>torch.mean\<close> over the items of a batch; a batch of a loader is never empty.\<close>

definition mean :: "real list \<Rightarrow> real" where
  "mean xs = sum_list xs / real (length xs)"

section \<open>Forward function and validation\<close>

definition model_fn :: "'v numerics \<Rightarrow> batch \<Rightarrow> 'v module
    \<Rightarrow> error + ((real \<times> real) \<times> 'v module)" where
  "model_fn nm b m =
     (let (mels, labels) = b;
          (outs, m') = call_model nm m mels;
          loss = criterion nm outs labels
      in case argmax_rows outs of
           Inl e \<Rightarrow> Inl e
         | Inr preds \<Rightarrow>
             Inr ((loss, mean (map2 (\<lambda>p l. if int p = l then 1 else 0) preds labels)), m'))"

text \<open>
  The loop of \<open>valid\<close> over the batches of one pass of the loader, carrying the module
  and the running sums.
\<close>

fun valid_loop :: "'v numerics \<Rightarrow> DataLoader \<Rightarrow> nat \<Rightarrow> nat list list \<Rightarrow> 'v module
    \<Rightarrow> real \<Rightarrow> real \<Rightarrow> error + (real \<times> real \<times> 'v module)" where
  "valid_loop nm dl k [] m running_loss running_accuracy =
     Inr (running_loss, running_accuracy, m)"
| "valid_loop nm dl k (idxs # rest) m running_loss running_accuracy =
     (case load_batch dl k idxs of
        Inl e \<Rightarrow> Inl e
      | Inr b \<Rightarrow>
          (case model_fn nm b m of
             Inl e \<Rightarrow> Inl e
           | Inr ((loss, accuracy), m') \<Rightarrow>
               valid_loop nm dl k rest m' (running_loss + loss) (running_accuracy + accuracy)))"

definition valid :: "'v numerics \<Rightarrow> DataLoader \<Rightarrow> nat \<Rightarrow> 'v module
    \<Rightarrow> error + (real \<times> 'v module)" where
  "valid nm dataloader k model =
     (case valid_loop nm dataloader k (pending (iter dataloader k)) (eval model) 0 0 of
        Inl e \<Rightarrow> Inl e
      | Inr (running_loss, running_accuracy, m) \<Rightarrow>
          let m' = train m
          in if len_loader dataloader = 0 then Inl ZeroDivisionError
             else Inr (running_accuracy / real (len_loader dataloader), m'))"

section \<open>Training loop\<close>

text \<open>
  What \<open>main\<close> works with: its arguments, the two loaders of \<open>get_dataloader\<close>, the
  numerical kernels, and the module as it is after construction and
  \<open>load_state_dict\<close> (the names and addresses of its tensors and the memory holding them).
\<close>

record 'v training_run =
  save_path :: string
  valid_steps :: int
  warmup_steps :: int
  total_steps :: int
  save_steps :: int
  train_loader :: DataLoader
  valid_loader :: DataLoader
  kernels :: "'v numerics"
  loaded_tensors :: state_dict
  loaded_heap :: "addr \<Rightarrow> 'v"

text \<open>
  The variables of \<open>main\<close>. \<open>train_passes\<close> and \<open>valid_passes\<close> count the iterators made
  so far over each loader; \<open>saved\<close> lists the files written by \<open>torch.save\<close>, oldest
  first, each with its path and contents.
\<close>

record 'v train_state =
  model :: "'v module"
  train_iterator :: iterator
  train_passes :: nat
  valid_passes :: nat
  best_accuracy :: real
  best_state_dict :: "state_dict option"
  saved :: "(string \<times> (string \<times> 'v) list) list"

definition init_state :: "'v training_run \<Rightarrow> 'v train_state" where
  "init_state s =
     \<lparr>model = \<lparr>tensors = loaded_tensors s, training = True, heap = loaded_heap s\<rparr>,
      train_iterator = iter (train_loader s) 0,
      train_passes = 1,
      valid_passes = 0,
      best_accuracy = - 1,
      best_state_dict = None,
      saved = []\<rparr>"

text \<open>Get data: \<open>next\<close>, and on \<open>StopIteration\<close> a new iterator and \<open>next\<close> again.\<close>

definition draw_batch :: "'v training_run \<Rightarrow> 'v train_state \<Rightarrow> error + (batch \<times> 'v train_state)" where
  "draw_batch s st =
     (case next_batch (train_loader s) (train_iterator st) of
        Inr (b, it) \<Rightarrow> Inr (b, st\<lparr>train_iterator := it\<rparr>)
      | Inl e \<Rightarrow>
          if e = StopIteration then
            (case next_batch (train_loader s) (iter (train_loader s) (train_passes st)) of
               Inr (b, it) \<Rightarrow>
                 Inr (b, st\<lparr>train_iterator := it, train_passes := Suc (train_passes st)\<rparr>)
             | Inl e' \<Rightarrow> Inl e')
          else Inl e)"

text \<open>
  Forward pass and update. The scheduler was created with \<open>last_epoch = -1\<close>, so the
  optimizer step of iteration \<open>step\<close> runs at the rate of scheduler epoch \<open>step\<close>, on the
  base rate \<open>1e-5\<close>.
\<close>

definition update_model :: "'v training_run \<Rightarrow> nat \<Rightarrow> batch \<Rightarrow> 'v train_state \<Rightarrow> error + 'v train_state" where
  "update_model s step b st =
     (case model_fn (kernels s) b (model st) of
        Inl e \<Rightarrow> Inl e
      | Inr ((loss, accuracy), m) \<Rightarrow>
          let lr = get_cosine_schedule_with_warmup (1 / 100000) (warmup_steps s)
                     (total_steps s) (int step)
          in Inr (st\<lparr>model := m\<lparr>heap := optimizer_step (kernels s) step lr m b\<rparr>\<rparr>))"

text \<open>Validation, and keeping the best model.\<close>

definition validation :: "'v training_run \<Rightarrow> nat \<Rightarrow> 'v train_state \<Rightarrow> error + 'v train_state" where
  "validation s step st =
     (if valid_steps s = 0 then Inl ZeroDivisionError
      else if (int step + 1) mod valid_steps s = 0 then
        (case valid (kernels s) (valid_loader s) (valid_passes st) (model st) of
           Inl e \<Rightarrow> Inl e
         | Inr (valid_accuracy, m) \<Rightarrow>
             let st' = st\<lparr>model := m, valid_passes := Suc (valid_passes st)\<rparr>
             in Inr (if valid_accuracy > best_accuracy st'
                     then st'\<lparr>best_accuracy := valid_accuracy,
                              best_state_dict := Some (state_dict m)\<rparr>
                     else st'))
      else Inr st)"

text \<open>Saving the best model so far, to the rolling path and to the step-tagged path.\<close>

definition save_best :: "'v training_run \<Rightarrow> nat \<Rightarrow> 'v train_state \<Rightarrow> error + 'v train_state" where
  "save_best s step st =
     (if save_steps s = 0 then Inl ZeroDivisionError
      else
        (case best_state_dict st of
           Some sd \<Rightarrow>
             if (int step + 1) mod save_steps s = 0 then
               let contents = torch_save (heap (model st)) sd
               in Inr (st\<lparr>saved := saved st
                         @ [(save_path s, contents),
                            (''./ckpt/'' @ str (int step + 1) @ ''.ckpt'', contents)]\<rparr>)
             else Inr st
         | None \<Rightarrow> Inr st))"

text \<open>One iteration of the \<open>for\<close> loop, for the loop variable \<open>step\<close>.\<close>

definition train_step :: "'v training_run \<Rightarrow> nat \<Rightarrow> 'v train_state \<Rightarrow> error + 'v train_state" where
  "train_step s step st =
     (case draw_batch s st of
        Inl e \<Rightarrow> Inl e
      | Inr (b, st1) \<Rightarrow>
          (case update_model s step b st1 of
             Inl e \<Rightarrow> Inl e
           | Inr st2 \<Rightarrow>
               (case validation s step st2 of
                  Inl e \<Rightarrow> Inl e
                | Inr st3 \<Rightarrow> save_best s step st3)))"

text \<open>The state after the first \<open>n\<close> iterations, or the exception that ended the run.\<close>

fun training_loop :: "'v training_run \<Rightarrow> nat \<Rightarrow> error + 'v train_state" where
  "training_loop s 0 = Inr (init_state s)"
| "training_loop s (Suc n) =
     (case training_loop s n of
        Inl e \<Rightarrow> Inl e
      | Inr st \<Rightarrow> train_step s n st)"

definition main :: "'v training_run \<Rightarrow> error + 'v train_state" where
  "main s = training_loop s (nat (total_steps s))"

section \<open>Classifier\<close>

text \<open>
  A linear layer \<open>nn.Linear(in_features, out_features)\<close> holds a weight matrix of
  \<open>out_features\<close> rows and \<open>in_features\<close> columns and a bias of \<open>out_features\<close> entries.
  Its initial entries are random; \<open>init\<close> stands for the draw.
\<close>

record linear =
  weight :: "real list list"
  bias :: "real list"

definition nn_Linear :: "(nat \<Rightarrow> nat \<Rightarrow> real) \<Rightarrow> nat \<Rightarrow> nat \<Rightarrow> linear" where
  "nn_Linear init in_features out_features =
     \<lparr>weight = map (\<lambda>r. map (init r) [0..<in_features]) [0..<out_features],
      bias = map (\<lambda>r. init r in_features) [0..<out_features]\<rparr>"

definition linear_forward :: "linear \<Rightarrow> real list \<Rightarrow> real list" where
  "linear_forward l x = map2 (\<lambda>row b. sum_list (map2 (*) row x) + b) (weight l) (bias l)"

text \<open>
  The conformer block is the third-party module. \<open>ConformerBlock\<close> builds its state
  (of an abstract type \<open>'c\<close>) from the keyword arguments; \<open>pooled\<close> stands for the first
  part of \<open>Classifier.forward\<close>, which projects the batch through \<open>prenet\<close>, runs the
  block and mean-pools over the frames: it gives the pooled feature vector of batch item
  \<open>i\<close>, so the output has one row per batch item. \<open>conformer_fits\<close> is the shape check
  \<open>load_state_dict\<close> makes on the block's tensors.
\<close>

record conformer_args =
  dim :: nat
  dim_head :: nat
  heads :: nat
  ff_mult :: nat
  conv_expansion_factor :: nat
  conv_kernel_size :: nat
  attn_dropout :: real
  ff_dropout :: real
  conv_dropout :: real

record 'c conformer_lib =
  ConformerBlock :: "conformer_args \<Rightarrow> 'c"
  pooled :: "'c \<Rightarrow> linear \<Rightarrow> bool \<Rightarrow> real list list list \<Rightarrow> nat \<Rightarrow> real list"
  conformer_fits :: "'c \<Rightarrow> 'c \<Rightarrow> bool"

record 'c classifier =
  prenet :: linear
  conformer :: 'c
  pred_layer :: linear
  in_training :: bool

definition Classifier :: "'c conformer_lib \<Rightarrow> (nat \<Rightarrow> nat \<Rightarrow> nat \<Rightarrow> real)
    \<Rightarrow> nat \<Rightarrow> int \<Rightarrow> real \<Rightarrow> 'c classifier" where
  "Classifier lib init d_model n_spks dropout =
     \<lparr>prenet = nn_Linear (init 0) 40 d_model,
      conformer = ConformerBlock lib
        \<lparr>dim = d_model,
         dim_head = 6,
         heads = 1,
         ff_mult = 1,
         conv_expansion_factor = 2,
         conv_kernel_size = 31,
         attn_dropout = dropout,
         ff_dropout = dropout,
         conv_dropout = dropout\<rparr>,
      pred_layer = nn_Linear (init 1) d_model 600,
      in_training = True\<rparr>"

definition forward :: "'c conformer_lib \<Rightarrow> 'c classifier \<Rightarrow> real list list list \<Rightarrow> real list list" where
  "forward lib m mels =
     map (\<lambda>i. linear_forward (pred_layer m)
                (pooled lib (conformer m) (prenet m) (in_training m) mels i))
         [0..<length mels]"

text \<open>
  A checkpoint written from a \<open>Classifier\<close> holds the tensors of its three parts.
  \<open>load_state_dict\<close> copies them into the module when every tensor has the shape of the
  one it replaces, and raises otherwise.
\<close>

record 'c checkpoint =
  ck_prenet :: linear
  ck_conformer :: 'c
  ck_pred_layer :: linear

definition same_shape :: "linear \<Rightarrow> linear \<Rightarrow> bool" where
  "same_shape a b \<longleftrightarrow>
     map length (weight a) = map length (weight b) \<and> length (bias a) = length (bias b)"

definition load_state_dict :: "'c conformer_lib \<Rightarrow> 'c classifier \<Rightarrow> 'c checkpoint
    \<Rightarrow> error + 'c classifier" where
  "load_state_dict lib m ck =
     (if same_shape (ck_prenet ck) (prenet m)
         \<and> conformer_fits lib (ck_conformer ck) (conformer m)
         \<and> same_shape (ck_pred_layer ck) (pred_layer m)
      then Inr (m\<lparr>prenet := ck_prenet ck,
                  conformer := ck_conformer ck,
                  pred_layer := ck_pred_layer ck\<rparr>)
      else Inl RuntimeError)"

section \<open>Inference\<close>

record InferenceDataset =
  inf_data_dir :: string
  utterances :: "string list"

definition inference_getitem :: "InferenceDataset \<Rightarrow> feature_store \<Rightarrow> int
    \<Rightarrow> error + (string \<times> spectrogram)" where
  "inference_getitem ds fs index =
     (case getitem_list (utterances ds) index of
        Inl e \<Rightarrow> Inl e
      | Inr feat_path \<Rightarrow>
          (case torch_load fs (path_join (inf_data_dir ds) feat_path) of
             Inl e \<Rightarrow> Inl e
           | Inr mel \<Rightarrow> Inr (feat_path, mel)))"

text \<open>\<open>torch.stack\<close> needs tensors of one shape.\<close>

definition torch_stack :: "spectrogram list \<Rightarrow> error + real list list list" where
  "torch_stack mels =
     (case mels of
        [] \<Rightarrow> Inl RuntimeError
      | m0 # _ \<Rightarrow>
          if list_all (\<lambda>m. bins m = bins m0 \<and> length (frames m) = length (frames m0)) mels
          then Inr (map frames mels)
          else Inl RuntimeError)"

definition inference_collate_batch :: "(string \<times> spectrogram) list
    \<Rightarrow> error + (string list \<times> real list list list)" where
  "inference_collate_batch b =
     (if b = [] then Inl ValueError
      else
        let feat_paths = map fst b; mels = map snd b
        in (case torch_stack mels of
              Inl e \<Rightarrow> Inl e
            | Inr stacked \<Rightarrow> Inr (feat_paths, stacked)))"

fun inference_fetch :: "InferenceDataset \<Rightarrow> feature_store \<Rightarrow> nat list
    \<Rightarrow> error + (string \<times> spectrogram) list" where
  "inference_fetch ds fs [] = Inr []"
| "inference_fetch ds fs (i # rest) =
     (case inference_getitem ds fs (int i) of
        Inl e \<Rightarrow> Inl e
      | Inr x \<Rightarrow>
          (case inference_fetch ds fs rest of
             Inl e \<Rightarrow> Inl e
           | Inr xs \<Rightarrow> Inr (x # xs)))"

text \<open>
  What the inference \<open>main\<close> works with: the dataset read from \<open>testdata.json\<close>, the
  feature files, the dictionary \<open>mapping["id2speaker"]\<close> (keys are decimal strings), the
  checkpoint stored at \<open>model_path\<close> if there is one, and the library.
\<close>

record 'c inference_run =
  test_dataset :: InferenceDataset
  test_features :: feature_store
  id2speaker :: "(string \<times> string) list"
  model_file :: "'c checkpoint option"
  library :: "'c conformer_lib"
  initial :: "nat \<Rightarrow> nat \<Rightarrow> nat \<Rightarrow> real"

text \<open>The inner loop: one row per pair of \<open>zip(feat_paths, preds)\<close>.\<close>

fun append_rows :: "(string \<times> string) list \<Rightarrow> (string \<times> nat) list \<Rightarrow> string list list
    \<Rightarrow> error + string list list" where
  "append_rows m [] results = Inr results"
| "append_rows m ((feat_path, pred) # rest) results =
     (case map_of m (str (int pred)) of
        None \<Rightarrow> Inl KeyError
      | Some name \<Rightarrow> append_rows m rest (results @ [[feat_path, name]]))"

text \<open>The outer loop over the batches of the loader.\<close>

fun inference_loop :: "'c inference_run \<Rightarrow> 'c classifier \<Rightarrow> nat list list \<Rightarrow> string list list
    \<Rightarrow> error + string list list" where
  "inference_loop r m [] results = Inr results"
| "inference_loop r m (idxs # rest) results =
     (case inference_fetch (test_dataset r) (test_features r) idxs of
        Inl e \<Rightarrow> Inl e
      | Inr items \<Rightarrow>
          (case inference_collate_batch items of
             Inl e \<Rightarrow> Inl e
           | Inr (feat_paths, mels) \<Rightarrow>
               (case argmax_rows (forward (library r) m mels) of
                  Inl e \<Rightarrow> Inl e
                | Inr preds \<Rightarrow>
                    (case append_rows (id2speaker r) (zip feat_paths preds) results of
                       Inl e \<Rightarrow> Inl e
                     | Inr results' \<Rightarrow> inference_loop r m rest results'))))"

text \<open>
  The inference \<open>main\<close> (the notebook defines \<open>main\<close> a second time). Its loader has
  \<open>batch_size = 1\<close>, \<open>shuffle = False\<close> and \<open>drop_last = False\<close>. The result is the list of
  rows handed to \<open>csv.writer.writerows\<close>.
\<close>

definition inference_main :: "'c inference_run \<Rightarrow> error + string list list" where
  "inference_main r =
     (let dataloader = batches_of 1 False [0..<length (utterances (test_dataset r))];
          speaker_num = int (length (id2speaker r));
          m = Classifier (library r) (initial r) 320 speaker_num 0.4
      in case model_file r of
           None \<Rightarrow> Inl FileNotFoundError
         | Some ck \<Rightarrow>
             (case load_state_dict (library r) m ck of
                Inl e \<Rightarrow> Inl e
              | Inr m' \<Rightarrow>
                  inference_loop r (m'\<lparr>in_training := False\<rparr>) dataloader
                    [[''Id'', ''Category'']]))"

section \<open>A small run\<close>

text \<open>
  A corpus of one utterance of one frame with \<open>40\<close> mel bins, spoken by speaker \<open>0\<close>, and
  a model with a single tensor \<open>w\<close> stored at address \<open>0\<close>. Each optimizer step adds \<open>1\<close>
  to \<open>w\<close>; of its \<open>600\<close> scores the model gives speaker \<open>0\<close> the highest exactly when
  \<open>w = 1\<close>, and speaker \<open>1\<close> otherwise. The loaders are built as \<open>get_dataloader\<close> builds
  them: both drop the last incomplete batch and the training one shuffles. A second
  corpus has two utterances, of three frames and of one frame, spoken by speakers \<open>5\<close>
  and \<open>3\<close>.
\<close>

definition example_mel :: spectrogram where
  "example_mel = \<lparr>bins = 40, frames = [replicate 40 0]\<rparr>"

definition example_batch :: batch where
  "example_batch = ([frames example_mel], [0])"

definition example_long :: spectrogram where
  "example_long = \<lparr>bins = 40, frames = [replicate 40 1, replicate 40 2, replicate 40 3]\<rparr>"

definition example_short :: spectrogram where
  "example_short = \<lparr>bins = 40, frames = [replicate 40 7]\<rparr>"

definition example_corpus :: myDataset where
  "example_corpus =
     \<lparr>data_dir = ''./Dataset'', segment_len = 128, speaker_num = 2,
      data = [(''uttr-b.pt'', 5), (''uttr-c.pt'', 3)]\<rparr>"

definition example_corpus_features :: feature_store where
  "example_corpus_features =
     [''./Dataset/uttr-b.pt'' \<mapsto> example_long, ''./Dataset/uttr-c.pt'' \<mapsto> example_short]"

definition example_dataset :: myDataset where
  "example_dataset =
     \<lparr>data_dir = ''./Dataset'', segment_len = 128, speaker_num = 1,
      data = [(''uttr-a.pt'', 0)]\<rparr>"

definition example_features :: feature_store where
  "example_features = [''./Dataset/uttr-a.pt'' \<mapsto> example_mel]"

definition example_loader :: "nat \<Rightarrow> bool \<Rightarrow> DataLoader" where
  "example_loader n sh =
     \<lparr>dataset = example_dataset, indices = [0], features = example_features,
      batch_size = n, shuffle = sh, drop_last = True,
      shuffle_entropy = (\<lambda>k. []), crop_entropy = (\<lambda>k i. 0)\<rparr>"

definition example_kernels :: "real numerics" where
  "example_kernels =
     \<lparr>logits = (\<lambda>m mels. map (\<lambda>x. if heap m 0 = 1 then 1 # replicate 599 0
                                      else 0 # 1 # replicate 598 0) mels),
      track_stats = (\<lambda>m mels. heap m),
      criterion = (\<lambda>outs labels. 0),
      optimizer_step = (\<lambda>step lr m b. (heap m)(0 := heap m 0 + 1))\<rparr>"

definition example_run :: "nat \<Rightarrow> int \<Rightarrow> int \<Rightarrow> int \<Rightarrow> real training_run" where
  "example_run n vs ss ts =
     \<lparr>save_path = ''model.ckpt'', valid_steps = vs, warmup_steps = 10000,
      total_steps = ts, save_steps = ss,
      train_loader = example_loader n True, valid_loader = example_loader n False,
      kernels = example_kernels,
      loaded_tensors = [(''w'', 0)], loaded_heap = (\<lambda>a. 0)\<rparr>"

section \<open>The results table, as described\<close>

text \<open>
  The category the specification gives to an utterance: load its whole feature array,
  run the model on it alone, take the index of the largest score and look its decimal
  string up in \<open>id2speaker\<close>. There is none when the feature file is missing or the
  index is not a key.
\<close>

definition predicted_speaker :: "'c inference_run \<Rightarrow> 'c classifier \<Rightarrow> string \<Rightarrow> string option" where
  "predicted_speaker r m feat_path =
     (case test_features r (path_join (inf_data_dir (test_dataset r)) feat_path) of
        None \<Rightarrow> None
      | Some mel \<Rightarrow>
          (case argmax (hd (forward (library r) m [frames mel])) of
             Inl e \<Rightarrow> None
           | Inr pred \<Rightarrow> map_of (id2speaker r) (str (int pred))))"

section \<open>A small inference run\<close>

text \<open>
  Two utterances and two speakers. The stand-in for the encoder pools an utterance to
  \<open>320\<close> copies of its first value; the head of the checkpoint has a row of ones for
  speaker \<open>1\<close> and zeros elsewhere, so the first utterance (value \<open>0\<close>) scores all
  speakers alike and the second (value \<open>1\<close>) scores speaker \<open>1\<close> highest.
\<close>

definition example_library :: "unit conformer_lib" where
  "example_library =
     \<lparr>ConformerBlock = (\<lambda>args. ()),
      pooled = (\<lambda>c l t mels i. replicate 320 (hd (hd (mels ! i)))),
      conformer_fits = (\<lambda>a b. True)\<rparr>"

definition example_head :: linear where
  "example_head = nn_Linear (\<lambda>r c. if r = 1 \<and> c < 320 then 1 else 0) 320 600"

definition example_checkpoint :: "unit checkpoint" where
  "example_checkpoint =
     \<lparr>ck_prenet = nn_Linear (\<lambda>r c. 0) 40 320,
      ck_conformer = (),
      ck_pred_layer = example_head\<rparr>"

definition example_inference :: "unit inference_run" where
  "example_inference =
     \<lparr>test_dataset = \<lparr>inf_data_dir = ''./Dataset'', utterances = [''featA.pt'', ''featB.pt'']\<rparr>,
      test_features = [''./Dataset/featA.pt'' \<mapsto> \<lparr>bins = 40, frames = [replicate 40 0]\<rparr>,
                       ''./Dataset/featB.pt'' \<mapsto> \<lparr>bins = 40, frames = [replicate 40 1]\<rparr>],
      id2speaker = [(''0'', ''id10001''), (''1'', ''id10002'')],
      model_file = Some example_checkpoint,
      library = example_library,
      initial = (\<lambda>l r c. 0)\<rparr>"


section \<open>Segment sampling\<close>

lemma slice_nonneg:
  "a + n \<le> length xs \<Longrightarrow> slice xs (int a) (int a + int n) = take n (drop a xs)"
  by (simp add: slice_def slice_bound_def Let_def min_def nat_add_distrib)

lemma randint_range:
  "a \<le> b \<Longrightarrow> \<exists>k. randint e a b = Inr (a + int k) \<and> int k \<le> b - a"
proof -
  assume ab: "a \<le> b"
  let ?r = "int e mod (b - a + 1)"
  have "0 \<le> ?r" using ab by simp
  moreover have "?r < b - a + 1" using ab by (intro pos_mod_bound) simp
  ultimately have "randint e a b = Inr (a + int (nat ?r)) \<and> int (nat ?r) \<le> b - a"
    using ab by (simp add: randint_def)
  then show ?thesis by blast
qed

text \<open>
  C3. For every feature array and every segment length \<open>S\<close>, \<open>__getitem__\<close> returns a
  segment of \<open>min L S\<close> frames. When \<open>L > S\<close> the segment is the contiguous slice
  \<open>[start, start + S)\<close> of the array for a start offset in \<open>[0, L - S]\<close>; when \<open>L \<le> S\<close>
  the array is returned unchanged.
\<close>

theorem getitem_segment_contract:
  fixes S :: nat
  shows "\<exists>seg. getitem_segment entropy (int S) mel = Inr seg
      \<and> bins seg = bins mel
      \<and> length (frames seg) = min (length (frames mel)) S
      \<and> (S < length (frames mel) \<longrightarrow>
           (\<exists>start. start \<le> length (frames mel) - S
              \<and> frames seg = take S (drop start (frames mel))
              \<and> (\<forall>i<S. frames seg ! i = frames mel ! (start + i))))
      \<and> (length (frames mel) \<le> S \<longrightarrow> seg = mel)"
proof (cases "S < length (frames mel)")
  case False
  then show ?thesis by (simp add: getitem_segment_def len_def)
next
  case True
  let ?L = "length (frames mel)"
  have "(0::int) \<le> len mel - int S" using True by (simp add: len_def)
  from randint_range [OF this, of entropy]
  obtain k where k: "randint entropy 0 (len mel - int S) = Inr (int k)"
    and kb: "int k \<le> len mel - int S" by auto
  have kL: "k + S \<le> ?L" using kb by (simp add: len_def)
  let ?seg = "mel\<lparr>frames := take S (drop k (frames mel))\<rparr>"
  have run: "getitem_segment entropy (int S) mel = Inr ?seg"
    using True k slice_nonneg [OF kL] by (simp add: getitem_segment_def len_def)
  have nth: "\<forall>i<S. frames ?seg ! i = frames mel ! (k + i)"
    using kL by simp
  have "k \<le> ?L - S" using kL by simp
  then show ?thesis
    using run nth kL True by (intro exI [of _ ?seg]) auto
qed


theorem getitem_segment_contract_witness:
  "\<exists>seg. getitem_segment 7 2 \<lparr>bins = 1, frames = [[1], [2], [3], [4], [5]]\<rparr> = Inr seg
      \<and> length (frames seg) = 2
      \<and> (\<exists>start\<le>3. frames seg = take 2 (drop start [[1], [2], [3], [4], [5]]))"
proof -
  let ?mel = "\<lparr>bins = 1, frames = [[1], [2], [3], [4], [5]]\<rparr>"
  from getitem_segment_contract [of 7 2 ?mel]
  obtain seg where run: "getitem_segment 7 (int 2) ?mel = Inr seg"
    and n: "length (frames seg) = min (length (frames ?mel)) 2"
    and cut: "2 < length (frames ?mel) \<longrightarrow>
           (\<exists>start. start \<le> length (frames ?mel) - 2
              \<and> frames seg = take 2 (drop start (frames ?mel))
              \<and> (\<forall>i<2. frames seg ! i = frames ?mel ! (start + i)))"
    by blast
  have "2 < length (frames ?mel)" by simp
  with cut obtain start where s: "start \<le> length (frames ?mel) - 2"
    and f: "frames seg = take 2 (drop start (frames ?mel))"
    by blast
  from s have "start \<le> 3" by simp
  moreover from f have "frames seg = take 2 (drop start [[1], [2], [3], [4], [5]])" by simp
  moreover from run have "getitem_segment 7 2 ?mel = Inr seg" by simp
  moreover from n have "length (frames seg) = 2" by simp
  ultimately show ?thesis by blast
qed

section \<open>Batch assembly: padding and labels\<close>

lemma bit_length_le: "m < 2 ^ k \<Longrightarrow> bit_length m \<le> k"
proof (induction k arbitrary: m)
  case 0
  then show ?case by (simp add: bit_length.simps)
next
  case (Suc k)
  show ?case
  proof (cases "m = 0")
    case True
    then show ?thesis by (simp add: bit_length.simps)
  next
    case False
    have "m div 2 < 2 ^ k" using Suc.prems by simp
    then have "bit_length (m div 2) \<le> k" by (rule Suc.IH)
    then show ?thesis using False by (subst bit_length.simps) simp
  qed
qed

lemma less_bit_length: "m < 2 ^ bit_length m"
proof (induction m rule: bit_length.induct)
  case (1 n)
  show ?case
  proof (cases "n = 0")
    case True
    then show ?thesis by simp
  next
    case False
    with 1 have "n div 2 < 2 ^ bit_length (n div 2)" by simp
    then have "n < 2 * 2 ^ bit_length (n div 2)" by simp
    then show ?thesis using False by (subst bit_length.simps) simp
  qed
qed

lemma bit_length_double: "0 < a \<Longrightarrow> bit_length (2 * a) = Suc (bit_length a)"
  by (subst bit_length.simps) simp

lemma bit_length_shift: "0 < a \<Longrightarrow> bit_length (a * 2 ^ j) = bit_length a + j"
proof (induction j)
  case 0
  show ?case by simp
next
  case (Suc j)
  have "bit_length (a * 2 ^ Suc j) = bit_length (2 * (a * 2 ^ j))"
    by (simp add: mult.commute mult.left_commute)
  also have "\<dots> = Suc (bit_length (a * 2 ^ j))"
    using Suc.prems by (intro bit_length_double) simp
  finally show ?case using Suc by simp
qed

text \<open>A number with at most \<open>p\<close> significant bits is not changed by rounding to \<open>p\<close> bits.\<close>

lemma round_bits_fixed:
  assumes "a < 2 ^ p"
  shows "round_bits p (a * 2 ^ j) = a * 2 ^ j"
proof (cases "a = 0")
  case True
  then show ?thesis by (simp add: round_bits_def bit_length.simps)
next
  case False
  define k where "k = bit_length (a * 2 ^ j) - p"
  have "bit_length a \<le> p" using assms by (rule bit_length_le)
  then have "k \<le> j" using False by (simp add: k_def bit_length_shift)
  then have "(2::nat) ^ k dvd 2 ^ j" by (rule le_imp_power_dvd)
  then have d: "2 ^ k dvd a * 2 ^ j" by (rule dvd_mult)
  then have r: "(a * 2 ^ j) mod 2 ^ k = 0" by simp
  have q: "(a * 2 ^ j) div 2 ^ k * 2 ^ k = a * 2 ^ j" using d by simp
  show ?thesis
    unfolding round_bits_def k_def [symmetric] Let_def r using q by simp
qed

text \<open>Rounding to \<open>p\<close> bits gives a number with at most \<open>p\<close> significant bits.\<close>

lemma round_bits_image:
  assumes "0 < p"
  shows "\<exists>a j. a < 2 ^ p \<and> round_bits p m = a * 2 ^ j"
proof -
  define k where "k = bit_length m - p"
  define q where "q = m div 2 ^ k"
  define q' where "q' = (if 2 ^ k < 2 * (m mod 2 ^ k) \<or> (2 * (m mod 2 ^ k) = 2 ^ k \<and> odd q)
                        then q + 1 else q)"
  have val: "round_bits p m = q' * 2 ^ k"
    by (simp add: round_bits_def Let_def k_def q_def q'_def)
  have "bit_length m \<le> k + p" by (simp add: k_def)
  then have "(2::nat) ^ bit_length m \<le> 2 ^ (k + p)" by (rule power_increasing) simp
  with less_bit_length [of m] have "m < 2 ^ k * 2 ^ p" by (simp add: power_add)
  then have "q < 2 ^ p" unfolding q_def
    by (simp add: less_mult_imp_div_less mult.commute)
  then have "q' \<le> 2 ^ p" by (simp add: q'_def)
  then consider "q' < 2 ^ p" | "q' = 2 ^ p" by linarith
  then show ?thesis
  proof cases
    case 1
    with val show ?thesis by blast
  next
    case 2
    have "(1::nat) < 2 ^ p" by (rule one_less_power) (use assms in simp_all)
    moreover have "round_bits p m = 1 * 2 ^ (p + k)" using val 2 by (simp add: power_add)
    ultimately show ?thesis by blast
  qed
qed

lemma float_steps_fixed:
  assumes "a < 2 ^ 24"
  shows "round_bits 24 (round_bits 53 (a * 2 ^ j)) = a * 2 ^ j"
proof -
  have "a < 2 ^ 53" using assms by (rule less_trans) simp
  then have "round_bits 53 (a * 2 ^ j) = a * 2 ^ j" by (rule round_bits_fixed)
  with round_bits_fixed [OF assms, of j] show ?thesis by simp
qed

text \<open>The round trip through the float changes nothing the second time.\<close>

lemma float_long_idem: "float_long (float_long n) = float_long n"
proof -
  define v where "v = round_bits 24 (round_bits 53 (nat \<bar>n\<bar>))"
  define z where "z = sgn n * int v"
  obtain a j where a: "a < 2 ^ 24" and v: "v = a * 2 ^ j"
    using round_bits_image [of 24 "round_bits 53 (nat \<bar>n\<bar>)"] by (auto simp: v_def)
  have top: "float_long (- (2 ^ 63)) = - (2 ^ 63)"
  proof -
    have "round_bits 24 (round_bits 53 (1 * 2 ^ 63)) = 1 * 2 ^ 63"
      by (rule float_steps_fixed) simp
    then show ?thesis by (simp add: float_long_def)
  qed
  have unfold: "float_long n = (if - (2 ^ 63) \<le> z \<and> z < 2 ^ 63 then z else - (2 ^ 63))"
    by (simp add: float_long_def v_def z_def Let_def)
  show ?thesis
  proof (cases "- (2 ^ 63) \<le> z \<and> z < 2 ^ 63")
    case False
    have "float_long n = - (2 ^ 63)"
      by (simp only: unfold False if_False simp_thms)
    with top show ?thesis by simp
  next
    case True
    have fz: "float_long n = z"
      by (simp only: unfold True if_True simp_thms)
    have az: "nat \<bar>z\<bar> = (if n = 0 then 0 else v)"
      by (simp add: z_def abs_mult abs_sgn_eq)
    have "round_bits 24 (round_bits 53 (nat \<bar>z\<bar>)) = nat \<bar>z\<bar>"
    proof (cases "n = 0")
      case True
      have "round_bits 24 (round_bits 53 (0 * 2 ^ 0)) = 0 * 2 ^ 0"
        by (rule float_steps_fixed) simp
      then show ?thesis using True by (simp add: az)
    next
      case False
      then show ?thesis using float_steps_fixed [OF a, of j] by (simp add: az v)
    qed
    moreover have "sgn z * int (nat \<bar>z\<bar>) = z" by (simp add: mult_sgn_abs)
    ultimately have "float_long z = z" using True by (simp add: float_long_def Let_def)
    with fz show ?thesis by simp
  qed
qed

lemma float_long_small:
  assumes "\<bar>n\<bar> < 2 ^ 24"
  shows "float_long n = n"
proof -
  have "nat \<bar>n\<bar> < 2 ^ 24" using assms by simp
  from float_steps_fixed [OF this, of 0]
  have "round_bits 24 (round_bits 53 (nat \<bar>n\<bar>)) = nat \<bar>n\<bar>" by simp
  moreover have "sgn n * int (nat \<bar>n\<bar>) = n" by (simp add: mult_sgn_abs)
  moreover have "- (2 ^ 63) \<le> n \<and> n < 2 ^ 63" using assms by (simp add: abs_less_iff)
  ultimately show ?thesis by (simp add: float_long_def Let_def)
qed

text \<open>
  Two values of the round trip: \<open>2 ^ 24 + 1\<close> comes back as \<open>2 ^ 24\<close>, and \<open>2 ^ 63 - 1\<close>,
  which rounds up to a float outside the 64-bit range, comes back as \<open>-2 ^ 63\<close>.
\<close>

lemma bit_length_examples:
  "bit_length 16777217 = 25"
  "bit_length 9223372036854775807 = 63"
  "bit_length 9223372036854775808 = 64"
  by (simp_all add: bit_length.simps)

lemma float_long_examples:
  "float_long 16777217 = 16777216"
  "float_long 9223372036854775807 = - 9223372036854775808"
  by (simp_all add: float_long_def round_bits_def bit_length_examples)

lemma getitem_label:
  assumes "getitem ds fs e i = Inr x"
  shows "\<exists>speaker. snd x = float_long speaker"
  using assms by (auto simp: getitem_def split: sum.splits prod.splits)

lemma collate_labels_kept:
  assumes "\<forall>x\<in>set batch. \<exists>ds fs e i. getitem ds fs e i = Inr x"
  shows "map float_long (map snd batch) = map snd batch"
proof -
  have "float_long (snd x) = snd x" if "x \<in> set batch" for x
  proof -
    from assms that obtain ds fs e i where "getitem ds fs e i = Inr x" by blast
    from getitem_label [OF this] obtain speaker where "snd x = float_long speaker" ..
    then show ?thesis by (simp add: float_long_idem)
  qed
  then show ?thesis by (simp add: map_idI)
qed

lemma fold_max_Max:
  "xs \<noteq> [] \<Longrightarrow> fold max xs (0::nat) = Max (set xs)"
proof -
  assume "xs \<noteq> []"
  have "fold max xs (0::nat) = Max (set (0 # xs))"
    by (rule Max.set_eq_fold [symmetric])
  also have "\<dots> = Max (set xs)"
    using \<open>xs \<noteq> []\<close> by simp
  finally show ?thesis .
qed

lemma length_broadcast_to: "length (broadcast_to trailing s) = length (frames s)"
  by (simp add: broadcast_to_def)

text \<open>A segment with one mel bin behind a segment with two: its value is repeated.\<close>

lemma pad_sequence_broadcasts:
  "pad_sequence [\<lparr>bins = 2, frames = [[1, 2], [3, 4]]\<rparr>, \<lparr>bins = 1, frames = [[7]]\<rparr>] v
     = Inr [[[1, 2], [3, 4]], [[7, 7], [v, v]]]"
  by (simp add: pad_sequence_def broadcast_to_def numeral_2_eq_2)

lemma pad_sequence_cases:
  assumes "ss \<noteq> []"
  shows "pad_sequence ss v =
           (if \<forall>s\<in>set ss. bins s = bins (hd ss) \<or> bins s = 1
            then Inr (map (\<lambda>s. broadcast_to (bins (hd ss)) s
                        @ replicate (Max (set (map (\<lambda>s. length (frames s)) ss)) - length (frames s))
                            (replicate (bins (hd ss)) v)) ss)
            else Inl RuntimeError)"
proof -
  obtain s0 rest where ss: "ss = s0 # rest" using assms by (cases ss) auto
  have mx: "fold max (map (\<lambda>s. length (frames s)) ss) 0
              = Max (set (map (\<lambda>s. length (frames s)) ss))"
    using assms by (intro fold_max_Max) simp
  show ?thesis
    using mx unfolding pad_sequence_def ss by (simp add: Let_def list_all_iff)
qed

text \<open>
  C4. For every non-empty list of (segment, label) pairs that \<open>__getitem__\<close> returns,
  \<open>collate_batch\<close> assembles a batch exactly when every segment has the trailing shape
  of the first or a single mel bin, and every batch it assembles is as follows: it has
  one item per segment, each of \<open>max (l\<^sub>1 .. l\<^sub>n)\<close> frames; item \<open>i\<close> starts with the frames
  of segment \<open>i\<close> and every frame at a position \<open>\<ge> l\<^sub>i\<close> is filled with \<open>-20\<close>; the labels
  come back in the same order with the same values.
\<close>

theorem collate_batch_contract:
  assumes "batch \<noteq> []"
    and "\<forall>x\<in>set batch. \<exists>ds fs e i. getitem ds fs e i = Inr x"
  shows "((\<exists>padded labels. collate_batch batch = Inr (padded, labels)) \<longleftrightarrow>
            (\<forall>x\<in>set batch. bins (fst x) = bins (fst (hd batch)) \<or> bins (fst x) = 1))
       \<and> (\<forall>padded labels. collate_batch batch = Inr (padded, labels) \<longrightarrow>
             labels = map snd batch
           \<and> length padded = length batch
           \<and> (\<forall>i<length batch.
                 length (padded ! i) = Max (set (map (\<lambda>x. length (frames (fst x))) batch))
               \<and> (bins (fst (batch ! i)) = bins (fst (hd batch)) \<longrightarrow>
                    take (length (frames (fst (batch ! i)))) (padded ! i) = frames (fst (batch ! i)))
               \<and> (\<forall>j. length (frames (fst (batch ! i))) \<le> j \<and> j < length (padded ! i)
                      \<longrightarrow> padded ! i ! j = replicate (bins (fst (hd batch))) (- 20))))"
proof -
  let ?ss = "map fst batch"
  let ?D = "bins (fst (hd batch))"
  let ?mx = "Max (set (map (\<lambda>s. length (frames s)) ?ss))"
  let ?pad = "\<lambda>s. broadcast_to ?D s @ replicate (?mx - length (frames s)) (replicate ?D (- 20))"
  let ?ok = "\<forall>x\<in>set batch. bins (fst x) = ?D \<or> bins (fst x) = 1"
  have ne: "?ss \<noteq> []" using assms(1) by simp
  have hd: "hd ?ss = fst (hd batch)" using assms(1) by (simp add: hd_map)
  have labels: "map float_long (map snd batch) = map snd batch"
    by (rule collate_labels_kept [OF assms(2)])
  have run: "collate_batch batch = (if ?ok then Inr (map ?pad ?ss, map snd batch) else Inl RuntimeError)"
    using assms(1) labels by (simp add: collate_batch_def Let_def pad_sequence_cases [OF ne] hd)
  have iff: "(\<exists>padded labels. collate_batch batch = Inr (padded, labels)) \<longleftrightarrow> ?ok"
    by (simp add: run)
  have mxeq: "?mx = Max (set (map (\<lambda>x. length (frames (fst x))) batch))"
    by (simp add: comp_def)
  have item: "length (map ?pad ?ss ! i) = ?mx
      \<and> (bins (fst (batch ! i)) = ?D \<longrightarrow>
           take (length (frames (fst (batch ! i)))) (map ?pad ?ss ! i) = frames (fst (batch ! i)))
      \<and> (\<forall>j. length (frames (fst (batch ! i))) \<le> j \<and> j < length (map ?pad ?ss ! i)
             \<longrightarrow> map ?pad ?ss ! i ! j = replicate ?D (- 20))"
    if i: "i < length batch" for i
  proof -
    let ?s = "fst (batch ! i)"
    have mem: "batch ! i \<in> set batch" using i by simp
    have "length (frames ?s) \<in> set (map (\<lambda>s. length (frames s)) ?ss)"
      using mem by force
    then have le: "length (frames ?s) \<le> ?mx" by (intro Max_ge) auto
    have eq: "map ?pad ?ss ! i = ?pad ?s" using i by simp
    have same: "bins ?s = ?D \<longrightarrow> broadcast_to ?D ?s = frames ?s"
      by (simp add: broadcast_to_def)
    show ?thesis
      unfolding eq using le same by (auto simp: nth_append length_broadcast_to)
  qed
  have props: "labels = map snd batch
           \<and> length padded = length batch
           \<and> (\<forall>i<length batch.
                 length (padded ! i) = Max (set (map (\<lambda>x. length (frames (fst x))) batch))
               \<and> (bins (fst (batch ! i)) = ?D \<longrightarrow>
                    take (length (frames (fst (batch ! i)))) (padded ! i) = frames (fst (batch ! i)))
               \<and> (\<forall>j. length (frames (fst (batch ! i))) \<le> j \<and> j < length (padded ! i)
                      \<longrightarrow> padded ! i ! j = replicate ?D (- 20)))"
    if c: "collate_batch batch = Inr (padded, labels)" for padded labels
  proof -
    from c have p: "padded = map ?pad ?ss" and l: "labels = map snd batch"
      by (auto simp: run split: if_splits)
    show ?thesis
      unfolding p l using item mxeq by simp
  qed
  from iff props show ?thesis by blast
qed

lemma example_corpus_items:
  "getitem example_corpus example_corpus_features e 0 = Inr (example_long, 5)"
  "getitem example_corpus example_corpus_features e 1 = Inr (example_short, 3)"
  by (simp_all add: getitem_def example_corpus_def example_corpus_features_def getitem_list_def
      path_join_def torch_load_def getitem_segment_def len_def float_long_small
      example_long_def example_short_def)

theorem collate_batch_contract_witness:
  "\<exists>padded.
     collate_batch [(example_long, 5), (example_short, 3)] = Inr (padded, [5, 3])
     \<and> length (padded ! 0) = 3 \<and> length (padded ! 1) = 3
     \<and> padded ! 1 ! 1 = replicate 40 (- 20) \<and> padded ! 1 ! 2 = replicate 40 (- 20)"
proof -
  let ?b = "[(example_long, 5::int), (example_short, 3)]"
  have h1: "?b \<noteq> []" by simp
  have "\<exists>ds fs e i. getitem ds fs e i = Inr (example_long, 5)"
    using example_corpus_items(1) [of 0] by blast
  moreover have "\<exists>ds fs e i. getitem ds fs e i = Inr (example_short, 3)"
    using example_corpus_items(2) [of 0] by blast
  ultimately have h2: "\<forall>x\<in>set ?b. \<exists>ds fs e i. getitem ds fs e i = Inr x"
    by simp
  have shape: "bins example_long = 40" "bins example_short = 40"
    "length (frames example_long) = 3" "length (frames example_short) = 1"
    by (simp_all add: example_long_def example_short_def)
  note contract = collate_batch_contract [OF h1 h2]
  have "\<forall>x\<in>set ?b. bins (fst x) = bins (fst (hd ?b)) \<or> bins (fst x) = 1"
    by (simp add: shape)
  with contract obtain padded labels where c: "collate_batch ?b = Inr (padded, labels)"
    by blast
  with contract have l: "labels = map snd ?b"
    and q: "\<forall>i<length ?b.
                 length (padded ! i) = Max (set (map (\<lambda>x. length (frames (fst x))) ?b))
               \<and> (bins (fst (?b ! i)) = bins (fst (hd ?b)) \<longrightarrow>
                    take (length (frames (fst (?b ! i)))) (padded ! i) = frames (fst (?b ! i)))
               \<and> (\<forall>j. length (frames (fst (?b ! i))) \<le> j \<and> j < length (padded ! i)
                      \<longrightarrow> padded ! i ! j = replicate (bins (fst (hd ?b))) (- 20))"
    by blast+
  from q [rule_format, of 0] have l0: "length (padded ! 0) = 3" by (simp add: shape)
  from q [rule_format, of 1] have l1: "length (padded ! 1) = 3"
    and r: "\<forall>j. 1 \<le> j \<and> j < length (padded ! 1) \<longrightarrow> padded ! 1 ! j = replicate 40 (- 20)"
    by (simp_all add: shape)
  have "padded ! 1 ! 1 = replicate 40 (- 20)" using r [rule_format, of 1] l1 by simp
  moreover have "padded ! 1 ! 2 = replicate 40 (- 20)" using r [rule_format, of 2] l1 by simp
  ultimately show ?thesis using c l l0 l1 by auto
qed


section \<open>Properties of the schedule\<close>

lemma lr_lambda_nonneg:
  "0 \<le> s \<Longrightarrow> 0 \<le> lr_lambda w t c s"
  by (simp add: lr_lambda_def Let_def)

text \<open>
  C2. With \<open>warmup_steps > 0\<close> and \<open>total_steps > warmup_steps\<close>, the multiplier is \<open>0\<close>
  at step \<open>0\<close>, \<open>1\<close> at step \<open>warmup_steps\<close> (so the rate is the base rate there), \<open>0\<close>
  at step \<open>total_steps\<close>, and non-negative at every step of \<open>[0, total_steps]\<close>.
\<close>

theorem lr_schedule_endpoints:
  assumes "0 < w" and "w < t" and "0 \<le> s" and "s \<le> t"
  shows "lr_lambda w t 0.5 0 = 0
       \<and> lr_lambda w t 0.5 w = 1
       \<and> lr_lambda w t 0.5 t = 0
       \<and> 0 \<le> lr_lambda w t 0.5 s
       \<and> get_cosine_schedule_with_warmup base w t 0 = 0
       \<and> get_cosine_schedule_with_warmup base w t w = base
       \<and> get_cosine_schedule_with_warmup base w t t = 0"
proof -
  have z: "lr_lambda w t 0.5 0 = 0"
    using assms(1) by (simp add: lr_lambda_def)
  have o: "lr_lambda w t 0.5 w = 1"
    by (simp add: lr_lambda_def)
  have "real_of_int (t - w) / real_of_int (max 1 (t - w)) = 1"
    using assms(2) by simp
  then have e: "lr_lambda w t 0.5 t = 0"
    using assms(2) by (simp add: lr_lambda_def Let_def)
  show ?thesis
    using z o e lr_lambda_nonneg [OF assms(3)]
    by (simp add: get_cosine_schedule_with_warmup_def)
qed

theorem lr_schedule_endpoints_witness:
  "lr_lambda 10 100 0.5 0 = 0
   \<and> lr_lambda 10 100 0.5 10 = 1
   \<and> lr_lambda 10 100 0.5 100 = 0
   \<and> 0 \<le> lr_lambda 10 100 0.5 55
   \<and> get_cosine_schedule_with_warmup (1 / 100000) 10 100 10 = 1 / 100000"
  using lr_schedule_endpoints [of 10 100 55 "1 / 100000"] by simp

section \<open>What each phase of a training iteration changes\<close>

lemma draw_batch_frame:
  assumes "draw_batch s st = Inr (b, st1)"
  shows "model st1 = model st \<and> valid_passes st1 = valid_passes st
       \<and> best_accuracy st1 = best_accuracy st
       \<and> best_state_dict st1 = best_state_dict st \<and> saved st1 = saved st"
  using assms
  by (auto simp: draw_batch_def split: sum.splits if_splits prod.splits)

lemma call_model_frame:
  "call_model nm m mels = (outs, m') \<Longrightarrow>
     training m' = training m \<and> tensors m' = tensors m \<and> (\<not> training m \<longrightarrow> m' = m)"
  by (auto simp: call_model_def split: if_splits)

lemma model_fn_frame:
  assumes "model_fn nm b m = Inr (r, m')"
  shows "training m' = training m \<and> tensors m' = tensors m \<and> (\<not> training m \<longrightarrow> m' = m)"
proof -
  obtain mels labels where b: "b = (mels, labels)" by (cases b)
  obtain outs m1 where c: "call_model nm m mels = (outs, m1)" by (cases "call_model nm m mels")
  from assms have "m' = m1"
    by (auto simp: model_fn_def b c split: sum.splits)
  with call_model_frame [OF c] show ?thesis by simp
qed

lemma update_model_frame:
  assumes "update_model s n b st = Inr st'"
  shows "training (model st') = training (model st)
       \<and> tensors (model st') = tensors (model st)
       \<and> valid_passes st' = valid_passes st
       \<and> best_accuracy st' = best_accuracy st
       \<and> best_state_dict st' = best_state_dict st \<and> saved st' = saved st"
proof -
  from assms obtain r m where mf: "model_fn (kernels s) b (model st) = Inr (r, m)"
    and st': "st' = st\<lparr>model := m\<lparr>heap := optimizer_step (kernels s) n
        (get_cosine_schedule_with_warmup (1 / 100000) (warmup_steps s) (total_steps s) (int n)) m b\<rparr>\<rparr>"
    by (auto simp: update_model_def Let_def split: sum.splits prod.splits)
  from model_fn_frame [OF mf] show ?thesis by (simp add: st')
qed

lemma valid_loop_eval:
  assumes "\<not> training m"
    and "valid_loop nm dl k bs m rl ra = Inr (rl', ra', m')"
  shows "m' = m"
  using assms
proof (induction bs arbitrary: m rl ra)
  case Nil
  then show ?case by simp
next
  case (Cons idxs rest)
  from Cons.prems(2) obtain b loss acc m1
    where mf: "model_fn nm b m = Inr ((loss, acc), m1)"
      and rec: "valid_loop nm dl k rest m1 (rl + loss) (ra + acc) = Inr (rl', ra', m')"
    by (auto split: sum.splits prod.splits)
  from model_fn_frame [OF mf] Cons.prems(1) have m1: "m1 = m" by simp
  from Cons.IH [OF _ rec] Cons.prems(1) m1 show ?case by simp
qed

lemma valid_frame:
  assumes "valid nm dl k m = Inr (acc, m')"
  shows "m' = m\<lparr>training := True\<rparr>"
proof -
  from assms obtain rl ra m1
    where loop: "valid_loop nm dl k (pending (iter dl k)) (eval m) 0 0 = Inr (rl, ra, m1)"
      and m': "m' = train m1"
    by (auto simp: valid_def Let_def split: sum.splits prod.splits if_splits)
  have "\<not> training (eval m)" by (simp add: eval_def)
  from valid_loop_eval [OF this loop] have "m1 = eval m" .
  then show ?thesis by (simp add: m' train_def eval_def)
qed

lemma validation_frame:
  assumes "validation s n st = Inr st'"
  shows "(model st' = model st \<or> model st' = (model st)\<lparr>training := True\<rparr>)
       \<and> saved st' = saved st
       \<and> best_accuracy st \<le> best_accuracy st'
       \<and> (best_state_dict st' = best_state_dict st \<and> best_accuracy st' = best_accuracy st
          \<or> best_state_dict st' = Some (tensors (model st)) \<and> best_accuracy st < best_accuracy st')"
proof (cases "(int n + 1) mod valid_steps s = 0")
  case False
  with assms show ?thesis by (auto simp: validation_def split: if_splits)
next
  case True
  with assms obtain acc m where v: "valid (kernels s) (valid_loader s) (valid_passes st) (model st) = Inr (acc, m)"
    and st': "st' = (if acc > best_accuracy st
         then st\<lparr>model := m, valid_passes := Suc (valid_passes st), best_accuracy := acc,
                  best_state_dict := Some (state_dict m)\<rparr>
         else st\<lparr>model := m, valid_passes := Suc (valid_passes st)\<rparr>)"
    by (auto simp: validation_def Let_def split: if_splits sum.splits prod.splits)
  from valid_frame [OF v] have m: "m = (model st)\<lparr>training := True\<rparr>" .
  show ?thesis by (simp add: st' m state_dict_def)
qed

lemma save_best_frame:
  assumes "save_best s n st = Inr st'"
  shows "model st' = model st \<and> best_accuracy st' = best_accuracy st
       \<and> best_state_dict st' = best_state_dict st
       \<and> saved st' = saved st @
           (if save_steps s dvd int n + 1 \<and> best_state_dict st \<noteq> None
            then [(save_path s, torch_save (heap (model st)) (the (best_state_dict st))),
                  (''./ckpt/'' @ str (int n + 1) @ ''.ckpt'',
                   torch_save (heap (model st)) (the (best_state_dict st)))]
            else [])"
proof -
  from assms have nz: "save_steps s \<noteq> 0" by (auto simp: save_best_def split: if_splits)
  then have dvd: "save_steps s dvd int n + 1 \<longleftrightarrow> (int n + 1) mod save_steps s = 0"
    by (simp add: mod_eq_0_iff_dvd)
  show ?thesis
    using assms nz unfolding dvd
    by (auto simp: save_best_def Let_def split: option.splits if_splits)
qed

section \<open>Invariants of the training loop\<close>

lemma train_step_phases:
  assumes "train_step s n st = Inr st'"
  obtains b st1 st2 st3 where "draw_batch s st = Inr (b, st1)"
    and "update_model s n b st1 = Inr st2"
    and "validation s n st2 = Inr st3"
    and "save_best s n st3 = Inr st'"
  using assms by (auto simp: train_step_def split: sum.splits prod.splits)

lemma train_step_inv:
  assumes step: "train_step s n st = Inr st'"
    and tr: "training (model st)"
    and none: "best_state_dict st = None \<longrightarrow> saved st = [] \<and> best_accuracy st = - 1"
    and some: "best_state_dict st \<noteq> None \<longrightarrow> - 1 < best_accuracy st"
  shows "training (model st')
       \<and> (best_state_dict st' = None \<longrightarrow> saved st' = [] \<and> best_accuracy st' = - 1)
       \<and> (best_state_dict st' \<noteq> None \<longrightarrow> - 1 < best_accuracy st')"
proof -
  from step obtain b st1 st2 st3 where d: "draw_batch s st = Inr (b, st1)"
    and u: "update_model s n b st1 = Inr st2"
    and v: "validation s n st2 = Inr st3"
    and w: "save_best s n st3 = Inr st'"
    by (rule train_step_phases)
  note fd = draw_batch_frame [OF d] and fu = update_model_frame [OF u]
    and fv = validation_frame [OF v] and fw = save_best_frame [OF w]
  have tr2: "training (model st2)" using tr fd fu by simp
  have tr3: "training (model st3)" using tr2 fv by auto
  have t: "training (model st')" using tr3 fw by simp
  have b2: "best_state_dict st2 = best_state_dict st" "best_accuracy st2 = best_accuracy st"
    "saved st2 = saved st" using fd fu by simp_all
  have n3: "best_state_dict st3 = None \<longrightarrow> saved st3 = [] \<and> best_accuracy st3 = - 1"
    using fv b2 none by auto
  have s3: "best_state_dict st3 \<noteq> None \<longrightarrow> - 1 < best_accuracy st3"
    using fv b2 none some by auto
  have n': "best_state_dict st' = None \<longrightarrow> saved st' = [] \<and> best_accuracy st' = - 1"
    using fw n3 by simp
  have s': "best_state_dict st' \<noteq> None \<longrightarrow> - 1 < best_accuracy st'"
    using fw s3 by simp
  from t n' s' show ?thesis by blast
qed

lemma training_loop_inv:
  "training_loop s n = Inr st \<Longrightarrow>
     training (model st)
     \<and> (best_state_dict st = None \<longrightarrow> saved st = [] \<and> best_accuracy st = - 1)
     \<and> (best_state_dict st \<noteq> None \<longrightarrow> - 1 < best_accuracy st)"
proof (induction n arbitrary: st)
  case 0
  then show ?case by (auto simp: init_state_def)
next
  case (Suc n)
  from Suc.prems obtain st0 where l: "training_loop s n = Inr st0"
    and step: "train_step s n st0 = Inr st"
    by (auto split: sum.splits)
  from Suc.IH [OF l] show ?case
    by (intro train_step_inv [OF step]) simp_all
qed

lemma train_step_best_mono:
  assumes "train_step s n st = Inr st'"
  shows "best_accuracy st \<le> best_accuracy st'"
proof -
  from assms obtain b st1 st2 st3 where d: "draw_batch s st = Inr (b, st1)"
    and u: "update_model s n b st1 = Inr st2"
    and v: "validation s n st2 = Inr st3"
    and w: "save_best s n st3 = Inr st'"
    by (rule train_step_phases)
  from draw_batch_frame [OF d] update_model_frame [OF u] validation_frame [OF v]
    save_best_frame [OF w]
  show ?thesis by simp
qed

text \<open>
  C5. The recorded best accuracy never decreases along a run: the value in the state
  after \<open>n + k\<close> iterations is at least the value after \<open>n\<close> iterations, hence the value
  after a later validation event is at least the value after an earlier one.
\<close>

theorem best_accuracy_monotone:
  assumes "training_loop s n = Inr st" and "training_loop s (n + k) = Inr st'"
  shows "best_accuracy st \<le> best_accuracy st'"
  using assms(2)
proof (induction k arbitrary: st')
  case 0
  with assms(1) show ?case by simp
next
  case (Suc k)
  from Suc.prems obtain st0 where l: "training_loop s (n + k) = Inr st0"
    and step: "train_step s (n + k) st0 = Inr st'"
    by (auto split: sum.splits)
  from Suc.IH [OF l] train_step_best_mono [OF step] show ?case by simp
qed

text \<open>
  What an iteration \<open>step = n\<close> of a run writes: when \<open>step + 1\<close> is a multiple of
  \<open>save_steps\<close> and \<open>best_state_dict\<close> is set, the rolling path and then the step-tagged
  path receive the contents that the tensors \<open>best_state_dict\<close> refers to have at that
  moment; otherwise nothing is written. As long as \<open>best_state_dict\<close> is not set no file
  has been written, and it is set exactly when a validation has improved on the initial
  \<open>-1\<close>.
\<close>

lemma save_step_writes:
  assumes reach: "training_loop s n = Inr st" and step: "train_step s n st = Inr st'"
  shows "saved st' = saved st @
           (if save_steps s dvd int n + 1 \<and> best_state_dict st' \<noteq> None
            then [(save_path s, torch_save (heap (model st')) (the (best_state_dict st'))),
                  (''./ckpt/'' @ str (int n + 1) @ ''.ckpt'',
                   torch_save (heap (model st')) (the (best_state_dict st')))]
            else [])
       \<and> (best_state_dict st' = None \<longrightarrow> saved st' = [])
       \<and> (best_state_dict st' \<noteq> None \<longleftrightarrow> - 1 < best_accuracy st')"
proof -
  from step obtain b st1 st2 st3 where d: "draw_batch s st = Inr (b, st1)"
    and u: "update_model s n b st1 = Inr st2"
    and v: "validation s n st2 = Inr st3"
    and w: "save_best s n st3 = Inr st'"
    by (rule train_step_phases)
  note fd = draw_batch_frame [OF d] and fu = update_model_frame [OF u]
    and fv = validation_frame [OF v] and fw = save_best_frame [OF w]
  have sv: "saved st3 = saved st" using fd fu fv by simp
  have writes: "saved st' = saved st @
           (if save_steps s dvd int n + 1 \<and> best_state_dict st' \<noteq> None
            then [(save_path s, torch_save (heap (model st')) (the (best_state_dict st'))),
                  (''./ckpt/'' @ str (int n + 1) @ ''.ckpt'',
                   torch_save (heap (model st')) (the (best_state_dict st')))]
            else [])"
    using fw sv by simp
  have "training_loop s (Suc n) = Inr st'" using reach step by simp
  from training_loop_inv [OF this]
  have inv: "best_state_dict st' = None \<longrightarrow> saved st' = [] \<and> best_accuracy st' = - 1"
    "best_state_dict st' \<noteq> None \<longrightarrow> - 1 < best_accuracy st'" by simp_all
  from inv have "best_state_dict st' \<noteq> None \<longleftrightarrow> - 1 < best_accuracy st'" by auto
  with writes inv show ?thesis by blast
qed

text \<open>
  C8. A validation pass of the training loop returns the module as it received it: the
  memory holding the parameters is the same, and so are the mode flags.
\<close>

theorem validation_leaves_model:
  assumes reach: "training_loop s n = Inr st"
    and d: "draw_batch s st = Inr (b, st1)"
    and u: "update_model s n b st1 = Inr st2"
    and v: "valid (kernels s) (valid_loader s) k (model st2) = Inr (acc, m')"
  shows "heap m' = heap (model st2) \<and> training m' = training (model st2) \<and> m' = model st2"
proof -
  from training_loop_inv [OF reach] have "training (model st)" by simp
  with draw_batch_frame [OF d] update_model_frame [OF u]
  have tr: "training (model st2)" by simp
  from valid_frame [OF v] have "m' = (model st2)\<lparr>training := True\<rparr>" .
  with tr have "m' = model st2" by simp
  then show ?thesis by simp
qed

section \<open>The small run, evaluated\<close>

lemma float_long_0: "float_long 0 = 0"
  by (simp add: float_long_small)

lemma example_mel_shape: "length (frames example_mel) = 1" "bins example_mel = 40"
  by (simp_all add: example_mel_def)

lemma getitem_example:
  "getitem example_dataset example_features e 0 = Inr (example_mel, 0)"
  by (simp add: getitem_def example_dataset_def example_features_def getitem_list_def
      path_join_def torch_load_def getitem_segment_def len_def float_long_0 example_mel_shape)

lemma load_batch_example:
  "load_batch (example_loader n sh) k [0] = Inr example_batch"
  by (simp add: load_batch_def example_loader_def getitem_list_def getitem_example
      collate_batch_def pad_sequence_def broadcast_to_def float_long_0 example_mel_shape
      example_batch_def)

lemma iter_example_1:
  "iter (example_loader (Suc 0) sh) k = \<lparr>pass = k, pending = [[0]]\<rparr>"
  by (simp add: iter_def example_loader_def shuffle_list_def batches_of.simps)

lemma iter_example_32:
  "iter (example_loader 32 sh) k = \<lparr>pass = k, pending = []\<rparr>"
  by (simp add: iter_def example_loader_def shuffle_list_def batches_of.simps)

lemma argmax_from_keep:
  "\<forall>x\<in>set xs. x \<le> best_v \<Longrightarrow> argmax_from best_i best_v i xs = best_i"
  by (induction xs arbitrary: i) auto

lemma argmax_example_scores:
  "argmax (1 # replicate 599 0) = Inr 0"
  "argmax (0 # 1 # replicate 598 0) = Inr 1"
  by (simp_all add: argmax_def argmax_from_keep)

lemma model_fn_example:
  "model_fn example_kernels example_batch m = Inr ((0, if heap m 0 = 1 then 1 else 0), m)"
  by (simp add: model_fn_def call_model_def example_kernels_def example_batch_def
      argmax_example_scores mean_def)

lemma len_loader_example_1: "len_loader (example_loader (Suc 0) sh) = 1"
  by (simp add: len_loader_def example_loader_def)

lemma valid_example:
  "valid example_kernels (example_loader (Suc 0) False) k m
     = Inr (if heap m 0 = 1 then 1 else 0, m\<lparr>training := True\<rparr>)"
  by (simp add: valid_def iter_example_1 load_batch_example model_fn_example eval_def train_def
      len_loader_example_1)

lemma example_run_fields:
  "save_path (example_run n vs ss ts) = ''model.ckpt''"
  "valid_steps (example_run n vs ss ts) = vs"
  "save_steps (example_run n vs ss ts) = ss"
  "total_steps (example_run n vs ss ts) = ts"
  "train_loader (example_run n vs ss ts) = example_loader n True"
  "valid_loader (example_run n vs ss ts) = example_loader n False"
  "kernels (example_run n vs ss ts) = example_kernels"
  "loaded_tensors (example_run n vs ss ts) = [(''w'', 0)]"
  "loaded_heap (example_run n vs ss ts) = (\<lambda>a. 0)"
  by (simp_all add: example_run_def)

lemma optimizer_step_example:
  "optimizer_step example_kernels step lr m b = (heap m)(0 := heap m 0 + 1)"
  by (simp add: example_kernels_def)

lemma draw_batch_example_first:
  "train_iterator st = \<lparr>pass = k, pending = [[0]]\<rparr> \<Longrightarrow>
   draw_batch (example_run (Suc 0) vs ss ts) st
     = Inr (example_batch, st\<lparr>train_iterator := \<lparr>pass = k, pending = []\<rparr>\<rparr>)"
  by (simp add: draw_batch_def example_run_fields next_batch_def load_batch_example)

lemma draw_batch_example_restart:
  "train_iterator st = \<lparr>pass = k, pending = []\<rparr> \<Longrightarrow>
   draw_batch (example_run (Suc 0) vs ss ts) st
     = Inr (example_batch,
            st\<lparr>train_iterator := \<lparr>pass = train_passes st, pending = []\<rparr>,
               train_passes := Suc (train_passes st)\<rparr>)"
  by (simp add: draw_batch_def example_run_fields next_batch_def load_batch_example iter_example_1)

lemma update_model_example:
  "update_model (example_run (Suc 0) vs ss ts) n example_batch st
     = Inr (st\<lparr>model := (model st)\<lparr>heap := (heap (model st))(0 := heap (model st) 0 + 1)\<rparr>\<rparr>)"
  by (simp add: update_model_def example_run_fields model_fn_example optimizer_step_example)

lemma validation_example:
  "validation (example_run (Suc 0) 1 ss ts) n st
     = Inr (if (if heap (model st) 0 = 1 then 1 else 0) > best_accuracy st
            then st\<lparr>model := (model st)\<lparr>training := True\<rparr>,
                    valid_passes := Suc (valid_passes st),
                    best_accuracy := (if heap (model st) 0 = 1 then 1 else 0),
                    best_state_dict := Some (tensors (model st))\<rparr>
            else st\<lparr>model := (model st)\<lparr>training := True\<rparr>,
                    valid_passes := Suc (valid_passes st)\<rparr>)"
  by (simp add: validation_def example_run_fields valid_example state_dict_def)

lemma str_2: "str 2 = ''2''"
  by (simp add: str_def str_nat.simps digit_char_def)

lemma example_step_0:
  "train_step (example_run (Suc 0) 1 2 2) 0 (init_state (example_run (Suc 0) 1 2 2))
     = Inr \<lparr>model = \<lparr>tensors = [(''w'', 0)], training = True, heap = (\<lambda>a. 0)(0 := 1)\<rparr>,
            train_iterator = \<lparr>pass = 0, pending = []\<rparr>,
            train_passes = 1, valid_passes = 1,
            best_accuracy = 1, best_state_dict = Some [(''w'', 0)], saved = []\<rparr>"
  by (simp add: train_step_def init_state_def example_run_fields iter_example_1
      draw_batch_example_first update_model_example validation_example save_best_def)

lemma example_step_1:
  "train_step (example_run (Suc 0) 1 2 2) (Suc 0)
      \<lparr>model = \<lparr>tensors = [(''w'', 0)], training = True, heap = (\<lambda>a. 0)(0 := 1)\<rparr>,
       train_iterator = \<lparr>pass = 0, pending = []\<rparr>,
       train_passes = 1, valid_passes = 1,
       best_accuracy = 1, best_state_dict = Some [(''w'', 0)], saved = []\<rparr>
     = Inr \<lparr>model = \<lparr>tensors = [(''w'', 0)], training = True, heap = (\<lambda>a. 0)(0 := 2)\<rparr>,
            train_iterator = \<lparr>pass = 1, pending = []\<rparr>,
            train_passes = 2, valid_passes = 2,
            best_accuracy = 1, best_state_dict = Some [(''w'', 0)],
            saved = [(''model.ckpt'', [(''w'', 2)]), (''./ckpt/2.ckpt'', [(''w'', 2)])]\<rparr>"
  by (simp add: train_step_def example_run_fields
      draw_batch_example_restart update_model_example validation_example save_best_def
      torch_save_def str_2 Let_def numeral_2_eq_2)

lemma example_loop_1:
  "training_loop (example_run (Suc 0) 1 2 2) (Suc 0)
     = Inr \<lparr>model = \<lparr>tensors = [(''w'', 0)], training = True, heap = (\<lambda>a. 0)(0 := 1)\<rparr>,
            train_iterator = \<lparr>pass = 0, pending = []\<rparr>,
            train_passes = 1, valid_passes = 1,
            best_accuracy = 1, best_state_dict = Some [(''w'', 0)], saved = []\<rparr>"
  by (simp add: example_step_0)

lemma example_loop_2:
  "training_loop (example_run (Suc 0) 1 2 2) (Suc (Suc 0))
     = Inr \<lparr>model = \<lparr>tensors = [(''w'', 0)], training = True, heap = (\<lambda>a. 0)(0 := 2)\<rparr>,
            train_iterator = \<lparr>pass = 1, pending = []\<rparr>,
            train_passes = 2, valid_passes = 2,
            best_accuracy = 1, best_state_dict = Some [(''w'', 0)],
            saved = [(''model.ckpt'', [(''w'', 2)]), (''./ckpt/2.ckpt'', [(''w'', 2)])]\<rparr>"
  by (simp only: training_loop.simps(2) [of _ "Suc 0"] example_loop_1 sum.case example_step_1)

section \<open>The training batch stream\<close>

lemma getitem_not_stop: "getitem ds fs e i = Inl err \<Longrightarrow> err \<noteq> StopIteration"
  by (auto simp: getitem_def getitem_list_def torch_load_def getitem_segment_def randint_def
      split: sum.splits option.splits prod.splits if_splits)

lemma fetch_not_stop: "fetch dl k idxs = Inl err \<Longrightarrow> err \<noteq> StopIteration"
proof (induction idxs)
  case Nil
  then show ?case by simp
next
  case (Cons i rest)
  then show ?case
    by (auto simp: getitem_list_def split: sum.splits if_splits dest: getitem_not_stop)
qed

lemma collate_batch_not_stop: "collate_batch b = Inl err \<Longrightarrow> err \<noteq> StopIteration"
  by (auto simp: collate_batch_def pad_sequence_def Let_def split: sum.splits list.splits if_splits)

lemma load_batch_not_stop: "load_batch dl k idxs = Inl err \<Longrightarrow> err \<noteq> StopIteration"
  by (auto simp: load_batch_def split: sum.splits dest: fetch_not_stop collate_batch_not_stop)

lemma next_batch_not_stop:
  "pending it \<noteq> [] \<Longrightarrow> next_batch dl it = Inl err \<Longrightarrow> err \<noteq> StopIteration"
  by (auto simp: next_batch_def split: list.splits sum.splits dest: load_batch_not_stop)

lemma length_pick: "length (pick n es xs) = min n (length xs)"
proof (induction n arbitrary: es xs)
  case 0
  show ?case by simp
next
  case (Suc n)
  show ?case
  proof (cases "xs = []")
    case True
    then show ?thesis by simp
  next
    case False
    define i where "i = (case es of [] \<Rightarrow> 0 | e # _ \<Rightarrow> e) mod length xs"
    have pos: "0 < length xs" using False by simp
    then have "i < length xs" by (simp add: i_def)
    then have "length (take i xs @ drop (Suc i) xs) = length xs - 1" by simp
    then have "length (pick n (tl es) (take i xs @ drop (Suc i) xs)) = min n (length xs - 1)"
      by (simp add: Suc.IH)
    moreover have "pick (Suc n) es xs = xs ! i # pick n (tl es) (take i xs @ drop (Suc i) xs)"
      using False by (simp add: Let_def i_def)
    ultimately have "length (pick (Suc n) es xs) = Suc (min n (length xs - 1))"
      by simp
    moreover obtain k where "length xs = Suc k"
      using pos by (cases "length xs") auto
    ultimately show ?thesis by simp
  qed
qed

lemma length_shuffle_list: "length (shuffle_list es xs) = length xs"
  by (simp add: shuffle_list_def length_pick)

lemma batches_of_nonempty:
  "0 < n \<Longrightarrow> n \<le> length xs \<Longrightarrow> batches_of n dl xs \<noteq> []"
  by (subst batches_of.simps) auto

lemma iter_nonempty:
  assumes "0 < batch_size dl" and "batch_size dl \<le> length (indices dl)"
  shows "pending (iter dl k) \<noteq> []"
  using assms by (simp add: iter_def Let_def batches_of_nonempty length_shuffle_list)

lemma draw_batch_not_stop:
  assumes "0 < batch_size (train_loader s)"
    and "batch_size (train_loader s) \<le> length (indices (train_loader s))"
    and "draw_batch s st = Inl err"
  shows "err \<noteq> StopIteration"
proof
  assume err: "err = StopIteration"
  have ne: "pending (iter (train_loader s) (train_passes st)) \<noteq> []"
    by (intro iter_nonempty assms)
  from assms(3) err
  have "next_batch (train_loader s) (iter (train_loader s) (train_passes st)) = Inl StopIteration"
    by (auto simp: draw_batch_def split: sum.splits prod.splits if_splits)
  from next_batch_not_stop [OF ne this] show False by simp
qed

lemma argmax_rows_not_stop: "argmax_rows rows = Inl err \<Longrightarrow> err \<noteq> StopIteration"
  by (induction rows arbitrary: err) (auto simp: argmax_def split: sum.splits list.splits)

lemma model_fn_not_stop: "model_fn nm b m = Inl err \<Longrightarrow> err \<noteq> StopIteration"
  by (auto simp: model_fn_def Let_def split: prod.splits sum.splits dest: argmax_rows_not_stop)

lemma update_model_not_stop: "update_model s n b st = Inl err \<Longrightarrow> err \<noteq> StopIteration"
  by (auto simp: update_model_def Let_def split: sum.splits prod.splits dest: model_fn_not_stop)

lemma valid_loop_not_stop:
  "valid_loop nm dl k bs m rl ra = Inl err \<Longrightarrow> err \<noteq> StopIteration"
proof (induction bs arbitrary: m rl ra)
  case Nil
  then show ?case by simp
next
  case (Cons idxs rest)
  then show ?case
    by (auto split: sum.splits prod.splits dest: load_batch_not_stop model_fn_not_stop)
qed

lemma valid_not_stop: "valid nm dl k m = Inl err \<Longrightarrow> err \<noteq> StopIteration"
  by (auto simp: valid_def Let_def split: sum.splits prod.splits if_splits
      dest: valid_loop_not_stop)

lemma validation_not_stop: "validation s n st = Inl err \<Longrightarrow> err \<noteq> StopIteration"
  by (auto simp: validation_def Let_def split: sum.splits prod.splits if_splits
      dest: valid_not_stop)

lemma save_best_not_stop: "save_best s n st = Inl err \<Longrightarrow> err \<noteq> StopIteration"
  by (auto simp: save_best_def Let_def split: option.splits if_splits)

lemma train_step_not_stop:
  assumes "0 < batch_size (train_loader s)"
    and "batch_size (train_loader s) \<le> length (indices (train_loader s))"
    and "train_step s n st = Inl err"
  shows "err \<noteq> StopIteration"
  using assms(3) draw_batch_not_stop [OF assms(1,2)]
  by (auto simp: train_step_def split: sum.splits prod.splits
      dest: update_model_not_stop validation_not_stop save_best_not_stop)

lemma training_loop_not_stop:
  assumes "0 < batch_size (train_loader s)"
    and "batch_size (train_loader s) \<le> length (indices (train_loader s))"
  shows "training_loop s n \<noteq> Inl StopIteration"
proof (induction n)
  case 0
  show ?case by simp
next
  case (Suc n)
  then show ?case
    using train_step_not_stop [OF assms]
    by (auto split: sum.splits)
qed

text \<open>
  C6, as amended. When the training split holds at least one full batch, drawing the
  next batch never ends in \<open>StopIteration\<close>, in any state, and no run ends in it; when the
  current iterator is exhausted, the batch drawn is the first one of a new iterator over
  the loader (a new pass, shuffled anew), which becomes the current iterator.
\<close>

theorem draw_batch_never_exhausts:
  assumes "0 < batch_size (train_loader s)"
    and "batch_size (train_loader s) \<le> length (indices (train_loader s))"
  shows "draw_batch s st \<noteq> Inl StopIteration
       \<and> training_loop s n \<noteq> Inl StopIteration
       \<and> (pending (train_iterator st) = [] \<longrightarrow>
            draw_batch s st =
              (case next_batch (train_loader s) (iter (train_loader s) (train_passes st)) of
                 Inr (b, it) \<Rightarrow>
                   Inr (b, st\<lparr>train_iterator := it, train_passes := Suc (train_passes st)\<rparr>)
               | Inl e \<Rightarrow> Inl e))"
proof -
  have restart: "pending (train_iterator st) = [] \<longrightarrow>
            draw_batch s st =
              (case next_batch (train_loader s) (iter (train_loader s) (train_passes st)) of
                 Inr (b, it) \<Rightarrow>
                   Inr (b, st\<lparr>train_iterator := it, train_passes := Suc (train_passes st)\<rparr>)
               | Inl e \<Rightarrow> Inl e)"
    by (auto simp: draw_batch_def next_batch_def split: sum.splits prod.splits)
  have "draw_batch s st \<noteq> Inl StopIteration"
    using draw_batch_not_stop [OF assms] by blast
  then show ?thesis
    using training_loop_not_stop [OF assms] restart by blast
qed

lemma training_loop_error_persists:
  "training_loop s m = Inl e \<Longrightarrow> m \<le> n \<Longrightarrow> training_loop s n = Inl e"
proof (induction n)
  case 0
  then show ?case by simp
next
  case (Suc n)
  show ?case
  proof (cases "m = Suc n")
    case True
    with Suc.prems show ?thesis by simp
  next
    case False
    with Suc.prems have "m \<le> n" by simp
    with Suc have "training_loop s n = Inl e" by simp
    then show ?thesis by simp
  qed
qed

lemma draw_batch_example_32:
  "draw_batch (example_run 32 vs ss ts) (init_state (example_run 32 vs ss ts)) = Inl StopIteration"
  by (simp add: draw_batch_def init_state_def example_run_fields iter_example_32 next_batch_def)

text \<open>
  With one training utterance and \<open>batch_size = 32\<close> the loader has no batch
  (\<open>drop_last\<close>): the new iterator made in the handler is exhausted at once, and its
  \<open>StopIteration\<close> ends the run in the first iteration.
\<close>

theorem draw_batch_exhausts_counterexample:
  "draw_batch (example_run 32 2000 10000 10000000)
       (init_state (example_run 32 2000 10000 10000000)) = Inl StopIteration
   \<and> main (example_run 32 2000 10000 10000000) = Inl StopIteration"
proof -
  let ?r = "example_run 32 2000 10000 10000000"
  have d: "draw_batch ?r (init_state ?r) = Inl StopIteration"
    by (rule draw_batch_example_32)
  then have "training_loop ?r (Suc 0) = Inl StopIteration"
    by (simp add: train_step_def)
  then have "training_loop ?r (nat (total_steps ?r)) = Inl StopIteration"
    by (rule training_loop_error_persists) (simp add: example_run_fields)
  with d show ?thesis by (simp add: main_def)
qed

section \<open>The invariants on the small run\<close>

theorem draw_batch_never_exhausts_witness:
  "draw_batch (example_run 1 1 2 2) (init_state (example_run 1 1 2 2)) \<noteq> Inl StopIteration
   \<and> training_loop (example_run 1 1 2 2) 2 \<noteq> Inl StopIteration"
proof -
  let ?r = "example_run 1 1 2 2"
  have h1: "0 < batch_size (train_loader ?r)"
    by (simp add: example_run_fields example_loader_def)
  have h2: "batch_size (train_loader ?r) \<le> length (indices (train_loader ?r))"
    by (simp add: example_run_fields example_loader_def)
  from draw_batch_never_exhausts [OF h1 h2, of "init_state ?r" 2]
  show ?thesis by blast
qed

theorem best_accuracy_monotone_witness:
  "\<exists>st st'. training_loop (example_run 1 1 2 2) 1 = Inr st
     \<and> training_loop (example_run 1 1 2 2) (1 + 1) = Inr st'
     \<and> best_accuracy st = 1 \<and> best_accuracy st' = 1
     \<and> best_accuracy st \<le> best_accuracy st'"
proof -
  let ?r = "example_run (Suc 0) 1 2 2"
  obtain st where a: "training_loop ?r (Suc 0) = Inr st" and a1: "best_accuracy st = 1"
    using example_loop_1 by simp
  obtain st' where b: "training_loop ?r (Suc 0 + Suc 0) = Inr st'" and b1: "best_accuracy st' = 1"
    using example_loop_2 by simp
  from best_accuracy_monotone [OF a b] have "best_accuracy st \<le> best_accuracy st'" .
  with a b a1 b1 show ?thesis by auto
qed

text \<open>
  C7. In the small run with \<open>valid_steps = 1\<close> and \<open>save_steps = 2\<close> the first iteration
  writes no file (\<open>step + 1 = 1\<close> is no multiple of \<open>save_steps\<close>), though the best
  checkpoint exists by then, captured with \<open>w = 1\<close>. The second iteration is a save step
  and writes the rolling path and the step-tagged path; the contents of both are
  \<open>w = 2\<close>, the parameters after the second update, while the best accuracy is still the
  one recorded with \<open>w = 1\<close>.
\<close>

theorem save_step_writes_later_parameters:
  "\<exists>st1 st2.
     training_loop (example_run 1 1 2 2) 1 = Inr st1
     \<and> saved st1 = []
     \<and> best_state_dict st1 = Some [(''w'', 0)]
     \<and> torch_save (heap (model st1)) [(''w'', 0)] = [(''w'', 1)]
     \<and> train_step (example_run 1 1 2 2) 1 st1 = Inr st2
     \<and> best_accuracy st2 = best_accuracy st1
     \<and> best_state_dict st2 = Some [(''w'', 0)]
     \<and> saved st2 = [(''model.ckpt'', [(''w'', 2)]), (''./ckpt/2.ckpt'', [(''w'', 2)])]"
  using example_loop_1 example_step_1
  by (simp add: torch_save_def)

theorem validation_leaves_model_witness:
  "\<exists>b st1 st2 acc m'.
     draw_batch (example_run 1 1 2 2) (init_state (example_run 1 1 2 2)) = Inr (b, st1)
     \<and> update_model (example_run 1 1 2 2) 0 b st1 = Inr st2
     \<and> valid (kernels (example_run 1 1 2 2)) (valid_loader (example_run 1 1 2 2)) 0 (model st2)
         = Inr (acc, m')
     \<and> heap m' = heap (model st2) \<and> training m' = training (model st2) \<and> m' = model st2"
proof -
  let ?r = "example_run (Suc 0) 1 2 2"
  have reach: "training_loop ?r 0 = Inr (init_state ?r)" by simp
  obtain b st1 where d: "draw_batch ?r (init_state ?r) = Inr (b, st1)" and b: "b = example_batch"
    by (simp add: draw_batch_example_first init_state_def example_run_fields iter_example_1)
  obtain st2 where u: "update_model ?r 0 b st1 = Inr st2"
    by (simp add: b update_model_example)
  obtain acc m' where v: "valid (kernels ?r) (valid_loader ?r) 0 (model st2) = Inr (acc, m')"
    by (simp add: example_run_fields valid_example)
  from validation_leaves_model [OF reach d u v] d u v
  show ?thesis by auto
qed

text \<open>
  C1. In the small run with \<open>valid_steps = 1\<close>, \<open>save_steps = 2\<close> and \<open>total_steps = 2\<close> the
  best accuracy is recorded after the first iteration, when the parameter \<open>w\<close> is \<open>1\<close>. The
  files written after the second iteration hold \<open>w = 2\<close>, the value after the later
  optimizer step, under the best accuracy of the first.
\<close>

theorem best_checkpoint_written_after_later_updates:
  "\<exists>st1 st2.
     training_loop (example_run 1 1 2 2) 1 = Inr st1
     \<and> best_accuracy st1 = 1
     \<and> best_state_dict st1 = Some [(''w'', 0)]
     \<and> torch_save (heap (model st1)) [(''w'', 0)] = [(''w'', 1)]
     \<and> main (example_run 1 1 2 2) = Inr st2
     \<and> best_accuracy st2 = 1
     \<and> saved st2 = [(''model.ckpt'', [(''w'', 2)]), (''./ckpt/2.ckpt'', [(''w'', 2)])]"
proof -
  let ?r = "example_run (Suc 0) 1 2 2"
  have "nat (total_steps ?r) = Suc (Suc 0)" by (simp add: example_run_fields)
  then have m: "main ?r = training_loop ?r (Suc (Suc 0))" by (simp add: main_def)
  show ?thesis
    using example_loop_1 example_loop_2 m
    by (simp add: torch_save_def)
qed

section \<open>The classification head\<close>

lemma nn_Linear_shape:
  "map length (weight (nn_Linear init n_in n_out)) = replicate n_out n_in"
  "length (weight (nn_Linear init n_in n_out)) = n_out"
  "length (bias (nn_Linear init n_in n_out)) = n_out"
  by (simp_all add: nn_Linear_def map_replicate_const comp_def)

lemma same_shape_lengths:
  assumes "same_shape a b"
  shows "length (weight a) = length (weight b) \<and> length (bias a) = length (bias b)"
proof -
  from assms have "map length (weight a) = map length (weight b)"
    by (simp add: same_shape_def)
  then have "length (weight a) = length (weight b)"
    by (rule map_eq_imp_length_eq)
  with assms show ?thesis by (simp add: same_shape_def)
qed

lemma length_linear_forward:
  "length (linear_forward l x) = min (length (weight l)) (length (bias l))"
  by (simp add: linear_forward_def)

lemma argmax_from_bound:
  "best_i < i \<Longrightarrow> argmax_from best_i best_v i xs < i + length xs"
proof (induction xs arbitrary: best_i best_v i)
  case Nil
  then show ?case by simp
next
  case (Cons a xs)
  have "argmax_from i a (Suc i) xs < Suc i + length xs"
    by (rule Cons.IH) simp
  moreover have "argmax_from best_i best_v (Suc i) xs < Suc i + length xs"
    by (rule Cons.IH) (use Cons.prems in simp)
  ultimately show ?case by simp
qed

lemma argmax_in_range:
  assumes "row \<noteq> []"
  shows "\<exists>i<length row. argmax row = Inr i"
proof -
  obtain x xs where row: "row = x # xs" using assms by (cases row) auto
  have "argmax_from 0 x 1 xs < 1 + length xs" by (rule argmax_from_bound) simp
  then show ?thesis by (simp add: row argmax_def)
qed

lemma forward_rows:
  assumes w: "length (weight (pred_layer m)) = 600" and b: "length (bias (pred_layer m)) = 600"
    and row: "row \<in> set (forward lib m mels)"
  shows "length row = 600 \<and> (\<exists>i<600. argmax row = Inr i)"
proof -
  from row obtain x where "row = linear_forward (pred_layer m) x"
    by (auto simp: forward_def)
  then have len: "length row = 600" using w b by (simp add: length_linear_forward)
  then have "row \<noteq> []" by auto
  from argmax_in_range [OF this] len show ?thesis by simp
qed

lemma Classifier_head:
  "length (weight (pred_layer (Classifier lib init d_model n_spks dropout))) = 600"
  "length (bias (pred_layer (Classifier lib init d_model n_spks dropout))) = 600"
  by (simp_all add: Classifier_def nn_Linear_shape)

lemma load_state_dict_head:
  assumes "load_state_dict lib m0 ck = Inr m"
  shows "length (weight (pred_layer m)) = length (weight (pred_layer m0))
       \<and> length (bias (pred_layer m)) = length (bias (pred_layer m0))"
proof -
  from assms have s: "same_shape (ck_pred_layer ck) (pred_layer m0)"
    and m: "pred_layer m = ck_pred_layer ck"
    by (auto simp: load_state_dict_def split: if_splits)
  from same_shape_lengths [OF s] m show ?thesis by simp
qed

text \<open>
  C10. Whatever \<open>n_spks\<close> is passed to \<open>Classifier\<close>, the model returns one row of exactly
  \<open>600\<close> scores per batch item, and the arg-max of a row is an index below \<open>600\<close>; this
  also holds after a checkpoint has been loaded into the model and the model has been
  put in evaluation mode.
\<close>

theorem classifier_head_600:
  "length (forward lib (Classifier lib init d_model n_spks dropout) mels) = length mels
   \<and> (\<forall>row\<in>set (forward lib (Classifier lib init d_model n_spks dropout) mels).
         length row = 600 \<and> (\<exists>i<600. argmax row = Inr i))
   \<and> (\<forall>ck m. load_state_dict lib (Classifier lib init d_model n_spks dropout) ck = Inr m \<longrightarrow>
         (\<forall>row\<in>set (forward lib (m\<lparr>in_training := False\<rparr>) mels).
            length row = 600 \<and> (\<exists>i<600. argmax row = Inr i)))"
proof -
  let ?m0 = "Classifier lib init d_model n_spks dropout"
  have a: "length (forward lib ?m0 mels) = length mels" by (simp add: forward_def)
  have b: "\<forall>row\<in>set (forward lib ?m0 mels). length row = 600 \<and> (\<exists>i<600. argmax row = Inr i)"
    using forward_rows [OF Classifier_head] by blast
  have c: "\<forall>row\<in>set (forward lib (m\<lparr>in_training := False\<rparr>) mels).
            length row = 600 \<and> (\<exists>i<600. argmax row = Inr i)"
    if "load_state_dict lib ?m0 ck = Inr m" for ck m
  proof -
    from load_state_dict_head [OF that] Classifier_head [of lib init d_model n_spks dropout]
    have "length (weight (pred_layer (m\<lparr>in_training := False\<rparr>))) = 600"
      and "length (bias (pred_layer (m\<lparr>in_training := False\<rparr>))) = 600" by simp_all
    from forward_rows [OF this] show ?thesis by blast
  qed
  from a b c show ?thesis by blast
qed

theorem classifier_head_600_witness:
  "length (forward example_library (Classifier example_library (\<lambda>l r c. 0) 320 2 0.4) [frames example_mel]) = 1
   \<and> length (hd (forward example_library (Classifier example_library (\<lambda>l r c. 0) 320 2 0.4) [frames example_mel]))
       = 600"
proof -
  let ?f = "forward example_library (Classifier example_library (\<lambda>l r c. 0) 320 2 0.4) [frames example_mel]"
  from classifier_head_600 [of example_library "\<lambda>l r c. 0" 320 2 "0.4" "[frames example_mel]"]
  have n: "length ?f = length [frames example_mel]"
    and rows: "\<forall>row\<in>set ?f. length row = 600 \<and> (\<exists>i<600. argmax row = Inr i)"
    by blast+
  from n have "?f \<noteq> []" by auto
  then have "hd ?f \<in> set ?f" by simp
  with rows have "length (hd ?f) = 600" by blast
  with n show ?thesis by simp
qed

section \<open>The inference loop\<close>

lemma batches_of_singletons: "batches_of 1 False xs = map (\<lambda>x. [x]) xs"
proof (induction xs)
  case Nil
  show ?case by (simp add: batches_of.simps)
next
  case (Cons x xs)
  then show ?case by (subst batches_of.simps) simp
qed

lemma forward_single:
  "forward lib m [x] = [linear_forward (pred_layer m) (pooled lib (conformer m) (prenet m) (in_training m) [x] 0)]"
  by (simp add: forward_def)

lemma inference_fetch_single:
  assumes "i < length (utterances ds)"
  shows "inference_fetch ds fs [i] =
           (case fs (path_join (inf_data_dir ds) (utterances ds ! i)) of
              None \<Rightarrow> Inl FileNotFoundError
            | Some mel \<Rightarrow> Inr [(utterances ds ! i, mel)])"
  using assms
  by (simp add: inference_getitem_def getitem_list_def torch_load_def split: option.splits)

lemma inference_collate_single:
  "inference_collate_batch [(u, mel)] = Inr ([u], [frames mel])"
  by (simp add: inference_collate_batch_def torch_stack_def)

lemma inference_loop_step:
  assumes "i < length (utterances (test_dataset r))"
  shows "inference_loop r m ([i] # rest) results =
           (case predicted_speaker r m (utterances (test_dataset r) ! i) of
              None \<Rightarrow> Inl (if test_features r (path_join (inf_data_dir (test_dataset r))
                                   (utterances (test_dataset r) ! i)) = None
                          then FileNotFoundError
                          else case argmax (hd (forward (library r) m
                                 [frames (the (test_features r (path_join (inf_data_dir (test_dataset r))
                                   (utterances (test_dataset r) ! i))))])) of
                                 Inl e \<Rightarrow> e | Inr p \<Rightarrow> KeyError)
            | Some name \<Rightarrow>
                inference_loop r m rest (results @ [[utterances (test_dataset r) ! i, name]]))"
  using assms
  by (auto simp: inference_fetch_single inference_collate_single predicted_speaker_def
      forward_single simp del: inference_fetch.simps split: option.splits sum.splits)

lemma inference_loop_table:
  assumes "\<forall>i\<in>set idxs. i < length (utterances (test_dataset r))"
  shows "inference_loop r m (map (\<lambda>i. [i]) idxs) results = Inr table \<longleftrightarrow>
           (\<forall>i\<in>set idxs. predicted_speaker r m (utterances (test_dataset r) ! i) \<noteq> None)
         \<and> table = results @ map (\<lambda>i. [utterances (test_dataset r) ! i,
                        the (predicted_speaker r m (utterances (test_dataset r) ! i))]) idxs"
  using assms
proof (induction idxs arbitrary: results)
  case Nil
  show ?case by auto
next
  case (Cons i idxs)
  from Cons.prems have i: "i < length (utterances (test_dataset r))"
    and rest: "\<forall>i\<in>set idxs. i < length (utterances (test_dataset r))" by simp_all
  show ?case
  proof (cases "predicted_speaker r m (utterances (test_dataset r) ! i)")
    case None
    then show ?thesis by (simp add: inference_loop_step [OF i] del: inference_loop.simps)
  next
    case (Some name)
    then show ?thesis
      using Cons.IH [OF rest, of "results @ [[utterances (test_dataset r) ! i, name]]"]
      by (simp add: inference_loop_step [OF i] del: inference_loop.simps)
  qed
qed

text \<open>
  C9. An inference run ends with a results table exactly when the checkpoint loads and
  every utterance has a category (its feature file exists and the predicted index is a
  key of \<open>id2speaker\<close>); the table is then the header row \<open>["Id", "Category"]\<close> followed by
  one row per utterance, in the order of the inference set, holding the utterance's
  feature path and its category.
\<close>

theorem inference_results_table:
  "inference_main r = Inr table \<longleftrightarrow>
     (\<exists>ck m. model_file r = Some ck
        \<and> load_state_dict (library r)
            (Classifier (library r) (initial r) 320 (int (length (id2speaker r))) 0.4) ck = Inr m
        \<and> (\<forall>u\<in>set (utterances (test_dataset r)).
              predicted_speaker r (m\<lparr>in_training := False\<rparr>) u \<noteq> None)
        \<and> table = [''Id'', ''Category'']
            # map (\<lambda>u. [u, the (predicted_speaker r (m\<lparr>in_training := False\<rparr>) u)])
                (utterances (test_dataset r)))"
proof -
  let ?us = "utterances (test_dataset r)"
  let ?m0 = "Classifier (library r) (initial r) 320 (int (length (id2speaker r))) 0.4"
  have loop: "inference_loop r m (batches_of 1 False [0..<length ?us]) [[''Id'', ''Category'']]
                = Inr table \<longleftrightarrow>
              (\<forall>u\<in>set ?us. predicted_speaker r m u \<noteq> None)
              \<and> table = [''Id'', ''Category'']
                  # map (\<lambda>u. [u, the (predicted_speaker r m u)]) ?us" for m
  proof -
    have range: "\<forall>i\<in>set [0..<length ?us]. i < length ?us" by simp
    have a: "(\<forall>i\<in>set [0..<length ?us]. predicted_speaker r m (?us ! i) \<noteq> None)
               \<longleftrightarrow> (\<forall>u\<in>set ?us. predicted_speaker r m u \<noteq> None)"
      by (auto simp: all_set_conv_all_nth)
    have b: "map (\<lambda>i. [?us ! i, the (predicted_speaker r m (?us ! i))]) [0..<length ?us]
               = map (\<lambda>u. [u, the (predicted_speaker r m u)]) ?us"
      by (rule nth_equalityI) simp_all
    show ?thesis
      unfolding batches_of_singletons inference_loop_table [OF range] a b by simp
  qed
  show ?thesis
  proof (cases "model_file r")
    case None
    then show ?thesis by (simp add: inference_main_def Let_def)
  next
    case (Some ck)
    show ?thesis
    proof (cases "load_state_dict (library r) ?m0 ck")
      case (Inl e)
      with Some show ?thesis by (simp add: inference_main_def Let_def)
    next
      case (Inr m)
      with Some loop [of "m\<lparr>in_training := False\<rparr>"] show ?thesis
        by (simp add: inference_main_def Let_def)
    qed
  qed
qed

section \<open>The small inference run, evaluated\<close>

lemma same_shape_nn_Linear: "same_shape (nn_Linear f n_in n_out) (nn_Linear g n_in n_out)"
  by (simp add: same_shape_def nn_Linear_shape)

lemma load_example_checkpoint:
  "load_state_dict example_library (Classifier example_library (\<lambda>l r c. 0) 320 n 0.4)
       example_checkpoint
     = Inr \<lparr>prenet = nn_Linear (\<lambda>r c. 0) 40 320, conformer = (),
            pred_layer = example_head,
            in_training = True\<rparr>"
  by (simp add: load_state_dict_def Classifier_def example_checkpoint_def example_library_def
      same_shape_nn_Linear example_head_def)

lemma example_row:
  "map (\<lambda>c. if r = 1 \<and> c < 320 then 1 else (0::real)) [0..<320]
     = replicate 320 (if r = 1 then 1 else 0)"
proof -
  have "map (\<lambda>c. if r = 1 \<and> c < 320 then 1 else (0::real)) [0..<320]
          = map (\<lambda>c. if r = 1 then 1 else 0) [0..<320]"
    by (rule map_cong) auto
  then show ?thesis by (simp add: map_replicate_const)
qed

lemma dot_replicate:
  "sum_list (map2 (*) (replicate n a) (replicate n v)) = real n * (a * v)"
  by (simp add: zip_replicate sum_list_replicate)

lemma example_logits:
  "linear_forward example_head (replicate 320 v)
     = map (\<lambda>r. if r = 1 then 320 * v else 0) [0..<600]"
proof -
  have "linear_forward example_head (replicate 320 v)
      = map (\<lambda>r. sum_list (map2 (*) (map (\<lambda>c. if r = 1 \<and> c < 320 then 1 else 0) [0..<320])
                                (replicate 320 v)) + 0) [0..<600]"
    unfolding example_head_def
    by (simp add: linear_forward_def nn_Linear_def zip_map_map map_zip_map comp_def zip_same_conv_map)
  also have "\<dots> = map (\<lambda>r. if r = 1 then 320 * v else 0) [0..<600]"
    unfolding example_row dot_replicate by (rule map_cong) simp_all
  finally show ?thesis .
qed

lemma upt_600: "[0..<600] = 0 # Suc 0 # [Suc (Suc 0)..<600]"
proof -
  have "[0..<600] = 0 # [Suc 0..<600]"
    by (rule upt_conv_Cons) simp
  moreover have "[Suc 0..<600] = Suc 0 # [Suc (Suc 0)..<600]"
    by (rule upt_conv_Cons) simp
  ultimately show ?thesis by (simp only:)
qed

lemma argmax_example:
  assumes v: "0 \<le> v"
  shows "argmax (linear_forward example_head (replicate 320 v)) = Inr (if 0 < v then 1 else 0)"
proof -
  let ?rest = "map (\<lambda>r. if r = 1 then 320 * v else 0) [Suc (Suc 0)..<600]"
  have rest0: "\<forall>x\<in>set ?rest. x \<le> 0" by auto
  have rest1: "\<forall>x\<in>set ?rest. x \<le> 320 * v" using v by auto
  show ?thesis
    unfolding example_logits upt_600
    using argmax_from_keep [OF rest0, of 0 "Suc (Suc 0)"]
      argmax_from_keep [OF rest1, of "Suc 0" "Suc (Suc 0)"] v
    by (simp add: argmax_def)
qed

lemma str_0_1: "str 0 = ''0''" "str 1 = ''1''"
  by (simp_all add: str_def str_nat.simps digit_char_def)

lemma predicted_example:
  "predicted_speaker example_inference
      \<lparr>prenet = nn_Linear (\<lambda>r c. 0) 40 320, conformer = (),
       pred_layer = example_head,
       in_training = False\<rparr> ''featA.pt'' = Some ''id10001''"
  "predicted_speaker example_inference
      \<lparr>prenet = nn_Linear (\<lambda>r c. 0) 40 320, conformer = (),
       pred_layer = example_head,
       in_training = False\<rparr> ''featB.pt'' = Some ''id10002''"
  by (simp_all add: predicted_speaker_def example_inference_def path_join_def forward_single
      example_library_def argmax_example str_0_1)

theorem inference_results_table_witness:
  "inference_main example_inference
     = Inr [[''Id'', ''Category''], [''featA.pt'', ''id10001''], [''featB.pt'', ''id10002'']]"
proof -
  let ?m = "\<lparr>prenet = nn_Linear (\<lambda>r c. 0) 40 320, conformer = (),
            pred_layer = example_head,
            in_training = True\<rparr> :: unit classifier"
  have f: "model_file example_inference = Some example_checkpoint"
    "library example_inference = example_library"
    "initial example_inference = (\<lambda>l r c. 0)"
    "utterances (test_dataset example_inference) = [''featA.pt'', ''featB.pt'']"
    by (simp_all add: example_inference_def)
  have l: "load_state_dict (library example_inference)
            (Classifier (library example_inference) (initial example_inference) 320
               (int (length (id2speaker example_inference))) 0.4) example_checkpoint = Inr ?m"
    unfolding f by (rule load_example_checkpoint)
  have p: "\<forall>u\<in>set (utterances (test_dataset example_inference)).
              predicted_speaker example_inference (?m\<lparr>in_training := False\<rparr>) u \<noteq> None"
    by (simp add: f predicted_example)
  have t: "[[''Id'', ''Category''], [''featA.pt'', ''id10001''], [''featB.pt'', ''id10002'']]
        = [''Id'', ''Category'']
            # map (\<lambda>u. [u, the (predicted_speaker example_inference (?m\<lparr>in_training := False\<rparr>) u)])
                (utterances (test_dataset example_inference))"
    by (simp add: f predicted_example)
  show ?thesis
    by (rule iffD2 [OF inference_results_table], intro exI conjI, rule f(1), rule l, rule p, rule t)
qed

end
